theory Spec2Isabelle
  imports Main "HOL-Library.Monad_Syntax"
begin

section \<open>Strings of the source language\<close>

text \<open>
  A Python \<open>str\<close> is a sequence of Unicode code points; \<open>len\<close> counts code points and
  \<open>word[i]\<close> is the one-character string at position \<open>i\<close>. A code point is a natural
  number here (Cyrillic letters do not fit an 8-bit character), a string is a list of them.
\<close>

type_synonym cp = nat
type_synonym str = "cp list"

text \<open>
  \<open>str.lower\<close> is a built-in of the language, driven by the Unicode tables of the
  interpreter. Every function below that lowercases takes it as its first argument
  \<open>lower\<close>; the source applies it both to whole words (\<open>word.lower()\<close>) and to
  one-character strings (\<open>word[i].lower()\<close>, here \<open>lower [c]\<close>).
\<close>

type_synonym lowering = "str \<Rightarrow> str"

text \<open>
  Indexing \<open>xs[i]\<close>: a negative index counts from the end, and an index outside
  \<open>-len(xs) .. len(xs) - 1\<close> raises IndexError, which is the value \<open>None\<close>.
\<close>

definition getitem :: "'a list \<Rightarrow> int \<Rightarrow> 'a option" where
  "getitem xs i =
     (if 0 \<le> i \<and> i < int (length xs) then Some (xs ! nat i)
      else if - int (length xs) \<le> i \<and> i < 0 then Some (xs ! nat (int (length xs) + i))
      else None)"

text \<open>\<open>s.endswith(e)\<close> and \<open>s.startswith(p)\<close>.\<close>

definition endswith :: "str \<Rightarrow> str \<Rightarrow> bool" where
  "endswith s e = (length e \<le> length s \<and> drop (length s - length e) s = e)"

definition startswith :: "str \<Rightarrow> str \<Rightarrow> bool" where
  "startswith s p = (take (length p) s = p)"

text \<open>\<open>set(s)\<close> for a string \<open>s\<close>: the set of its one-character strings.\<close>

definition set_of_str :: "str \<Rightarrow> str set" where
  "set_of_str s = set (map (\<lambda>c. [c]) s)"

section \<open>The vowel alphabet\<close>

text \<open>
  \<open>get_bashkir_vowels\<close> returns \<open>set('...')\<close> of the twelve letters
  U+0430 U+04D9 U+043E U+04E9 U+04AF U+0443 U+044B U+0438 U+044D U+0435 U+044F U+044E;
  \<open>special_vowels\<close> is \<open>set('...')\<close> of U+04AF and U+0443, and \<open>regular_vowels\<close>
  is the difference of the two.
\<close>

definition get_bashkir_vowels :: "str set" where
  "get_bashkir_vowels =
     set_of_str [0x430, 0x4D9, 0x43E, 0x4E9, 0x4AF, 0x443, 0x44B, 0x438, 0x44D, 0x435, 0x44F, 0x44E]"

definition special_vowels :: "str set" where
  "special_vowels = set_of_str [0x4AF, 0x443]"

definition regular_vowels :: "str set" where
  "regular_vowels = get_bashkir_vowels - special_vowels"

section \<open>is_vowel_in_context\<close>

text \<open>
  The two neighbour tests of the source, \<open>index > 0 and word[index-1].lower() in
  regular_vowels\<close> and \<open>index < len(word) - 1 and word[index+1].lower() in
  regular_vowels\<close>: the index expression is evaluated only when the guard holds.
\<close>

definition prev_is_regular :: "lowering \<Rightarrow> str \<Rightarrow> int \<Rightarrow> bool option" where
  "prev_is_regular lower word index =
     (if index > 0 then do {
        p \<leftarrow> getitem word (index - 1);
        Some (lower [p] \<in> regular_vowels)
      } else Some False)"

definition next_is_regular :: "lowering \<Rightarrow> str \<Rightarrow> int \<Rightarrow> bool option" where
  "next_is_regular lower word index =
     (if index < int (length word) - 1 then do {
        n \<leftarrow> getitem word (index + 1);
        Some (lower [n] \<in> regular_vowels)
      } else Some False)"

definition is_vowel_in_context :: "lowering \<Rightarrow> str \<Rightarrow> int \<Rightarrow> bool option" where
  "is_vowel_in_context lower word index =
     (if index < 0 \<or> index \<ge> int (length word) then Some False
      else do {
        c \<leftarrow> getitem word index;
        let char = lower [c];
        if char \<in> regular_vowels then Some True
        else if char \<in> special_vowels then do {
          before \<leftarrow> prev_is_regular lower word index;
          if before then Some False
          else do {
            after \<leftarrow> next_is_regular lower word index;
            if after then Some False else Some True
          }
        }
        else Some False
      })"

section \<open>find_last_vowel_index\<close>

text \<open>\<open>enumerate(word)\<close>: the pairs of a position and the character there.\<close>

definition enumerate_str :: "str \<Rightarrow> (int \<times> cp) list" where
  "enumerate_str word = zip (map int [0..<length word]) word"

text \<open>
  The body of the \<open>for\<close> loop, run over the remaining pairs with the current
  \<open>last_index\<close>. \<open>has_adjacent_vowel\<close> is set by either neighbour test.
\<close>

fun last_vowel_loop :: "lowering \<Rightarrow> str \<Rightarrow> (int \<times> cp) list \<Rightarrow> int \<Rightarrow> int option" where
  "last_vowel_loop lower word [] last_index = Some last_index"
| "last_vowel_loop lower word ((i, char) # rest) last_index =
     (let char_lower = lower [char] in
      if char_lower \<in> regular_vowels then last_vowel_loop lower word rest i
      else if char_lower \<in> special_vowels then do {
        before \<leftarrow> prev_is_regular lower word i;
        after \<leftarrow> next_is_regular lower word i;
        let has_adjacent_vowel = (before \<or> after);
        if \<not> has_adjacent_vowel then last_vowel_loop lower word rest i
        else last_vowel_loop lower word rest last_index
      }
      else last_vowel_loop lower word rest last_index)"

definition find_last_vowel_index :: "lowering \<Rightarrow> str \<Rightarrow> int option" where
  "find_last_vowel_index lower word = last_vowel_loop lower word (enumerate_str word) (- 1)"

section \<open>should_exclude_word\<close>

definition simple_endings :: "str list" where
  "simple_endings = [ [0x43C, 0x43E], [0x43C, 0x435], [0x43C, 0x4E9], [0x43C, 0x44B] ]"

definition complex_endings :: "str list" where
  "complex_endings =
     [ [0x431, 0x43E, 0x499], [0x431, 0x435, 0x499], [0x431, 0x44B, 0x499], [0x431, 0x4E9, 0x499],
      [0x43C, 0x435, 0x43D], [0x43C, 0x4E9, 0x43D], [0x43C, 0x43E, 0x43D], [0x43C, 0x44B, 0x43D],
      [0x4BB, 0x435, 0x4A3], [0x4BB, 0x4E9, 0x4A3], [0x4BB, 0x43E, 0x4A3], [0x4BB, 0x44B, 0x4A3],
      [0x4BB, 0x435, 0x433, 0x435, 0x499], [0x4BB, 0x4E9, 0x433, 0x4E9, 0x499],
      [0x4BB, 0x43E, 0x493, 0x43E, 0x499], [0x4BB, 0x44B, 0x493, 0x44B, 0x499],
      [0x441, 0x430], [0x441, 0x4D9] ]"

definition question_words :: "str list" where
  "question_words =
     [ [0x43A, 0x435, 0x43C], [0x43D, 0x438, 0x43D, 0x434, 0x4D9, 0x439],
      [0x43D, 0x438, 0x441, 0x435, 0x43A], [0x4A1, 0x430, 0x439, 0x499, 0x430],
      [0x43D, 0x438, 0x4A3, 0x4D9], [0x43D, 0x438, 0x441, 0x4D9],
      [0x4A1, 0x430, 0x441, 0x430, 0x43D], [0x4A1, 0x430, 0x439, 0x4BB, 0x44B],
      [0x4A1, 0x430, 0x439, 0x499, 0x430, 0x43D], [0x43D, 0x438, 0x448, 0x43B, 0x4D9, 0x43F],
      [0x43D, 0x438, 0x43C, 0x4D9] ]"

text \<open>
  Rule 1b, the loop \<open>for ending in complex_endings\<close>. The result \<open>Some True\<close> is the
  \<open>return True\<close> inside the loop, \<open>Some False\<close> is the loop running to its end, and
  \<open>continue\<close> is the recursive call on the remaining endings.
\<close>

fun complex_ending_loop :: "lowering \<Rightarrow> str \<Rightarrow> str \<Rightarrow> str list \<Rightarrow> bool option" where
  "complex_ending_loop lower word word_lower [] = Some False"
| "complex_ending_loop lower word word_lower (ending # rest) =
     (if endswith word_lower ending then
        (let prefix_index = int (length word) - int (length ending) - 1 in
         if prefix_index \<ge> 0 then do {
           v \<leftarrow> is_vowel_in_context lower word prefix_index;
           if v then complex_ending_loop lower word word_lower rest else Some True
         }
         else Some True)
      else complex_ending_loop lower word word_lower rest)"

definition should_exclude_word :: "lowering \<Rightarrow> str \<Rightarrow> int \<Rightarrow> bool option" where
  "should_exclude_word lower word index =
     (let word_lower = lower word in
      if list_ex (\<lambda>ending. endswith word_lower ending) simple_endings then Some True
      else do {
        fired \<leftarrow> complex_ending_loop lower word word_lower complex_endings;
        if fired then Some True
        else if list_ex (\<lambda>qword. startswith word_lower qword) question_words then Some True
        else do {
          last_vowel_index \<leftarrow> find_last_vowel_index lower word;
          if last_vowel_index \<noteq> - 1 \<and> last_vowel_index = index then Some True
          else Some False
        }
      })"

section \<open>filter_words\<close>

text \<open>
  Whitespace as \<open>str.strip()\<close> and \<open>str.split()\<close> without arguments see it: the code
  points for which \<open>str.isspace\<close> holds.
\<close>

definition py_isspace :: "cp \<Rightarrow> bool" where
  "py_isspace c =
     (c \<in> {0x9, 0xA, 0xB, 0xC, 0xD, 0x1C, 0x1D, 0x1E, 0x1F, 0x20, 0x85, 0xA0, 0x1680,
            0x2028, 0x2029, 0x202F, 0x205F, 0x3000} \<or> (0x2000 \<le> c \<and> c \<le> 0x200A))"

definition py_strip :: "str \<Rightarrow> str" where
  "py_strip s = rev (dropWhile py_isspace (rev (dropWhile py_isspace s)))"

text \<open>
  \<open>s.split()\<close>: the maximal runs of non-whitespace characters, in order. \<open>tok\<close> is the
  run read so far.
\<close>

fun split_from :: "str \<Rightarrow> str \<Rightarrow> str list" where
  "split_from tok [] = (if tok = [] then [] else [tok])"
| "split_from tok (c # cs) =
     (if py_isspace c then (if tok = [] then split_from [] cs else tok # split_from [] cs)
      else split_from (tok @ [c]) cs)"

definition py_split :: "str \<Rightarrow> str list" where
  "py_split s = split_from [] s"

text \<open>
  \<open>int(s)\<close> is a built-in as well; \<open>filter_words\<close> takes it as the argument
  \<open>to_int\<close>, with \<open>None\<close> for ValueError.
\<close>

type_synonym int_parser = "str \<Rightarrow> int option"

text \<open>\<open>str(n)\<close> for a length \<open>n\<close>, in decimal.\<close>

fun str_of_nat :: "nat \<Rightarrow> str" where
  "str_of_nat n = (if n < 10 then [0x30 + n] else str_of_nat (n div 10) @ [0x30 + n mod 10])"

declare str_of_nat.simps [simp del]

text \<open>The texts handed to \<open>print\<close>.\<close>

definition warn_line :: "str \<Rightarrow> str" where
  "warn_line line =
     [0x41F, 0x440, 0x435, 0x434, 0x443, 0x43F, 0x440, 0x435, 0x436, 0x434, 0x435, 0x43D,
      0x438, 0x435, 0x3A, 0x20, 0x43D, 0x435, 0x43A, 0x43E, 0x440, 0x440, 0x435, 0x43A,
      0x442, 0x43D, 0x430, 0x44F, 0x20, 0x441, 0x442, 0x440, 0x43E, 0x43A, 0x430, 0x20,
      0x27] @ line @
     [0x27, 0x2C, 0x20, 0x43F, 0x440, 0x43E, 0x43F, 0x443, 0x441, 0x43A, 0x430, 0x435,
      0x43C]"

definition warn_index :: "str \<Rightarrow> str" where
  "warn_index line =
     [0x41F, 0x440, 0x435, 0x434, 0x443, 0x43F, 0x440, 0x435, 0x436, 0x434, 0x435, 0x43D,
      0x438, 0x435, 0x3A, 0x20, 0x43D, 0x435, 0x43A, 0x43E, 0x440, 0x440, 0x435, 0x43A,
      0x442, 0x43D, 0x44B, 0x439, 0x20, 0x438, 0x43D, 0x434, 0x435, 0x43A, 0x441, 0x20,
      0x432, 0x20, 0x441, 0x442, 0x440, 0x43E, 0x43A, 0x435, 0x20, 0x27] @ line @
     [0x27, 0x2C, 0x20, 0x43F, 0x440, 0x43E, 0x43F, 0x443, 0x441, 0x43A, 0x430, 0x435,
      0x43C]"

definition msg_done :: str where
  "msg_done =
     [0x41E, 0x431, 0x440, 0x430, 0x431, 0x43E, 0x442, 0x43A, 0x430, 0x20, 0x437, 0x430,
      0x432, 0x435, 0x440, 0x448, 0x435, 0x43D, 0x430, 0x20, 0x443, 0x441, 0x43F, 0x435,
      0x448, 0x43D, 0x43E, 0x21]"

definition msg_count :: "nat \<Rightarrow> str" where
  "msg_count n =
     [0x412, 0x441, 0x435, 0x433, 0x43E, 0x20, 0x43E, 0x442, 0x444, 0x438, 0x43B, 0x44C,
      0x442, 0x440, 0x43E, 0x432, 0x430, 0x43D, 0x43E, 0x20, 0x441, 0x43B, 0x43E, 0x432,
      0x3A, 0x20] @ str_of_nat n"

definition err_not_found :: "str \<Rightarrow> str" where
  "err_not_found input_file =
     [0x41E, 0x448, 0x438, 0x431, 0x43A, 0x430, 0x3A, 0x20, 0x444, 0x430, 0x439, 0x43B,
      0x20, 0x27] @ input_file @
     [0x27, 0x20, 0x43D, 0x435, 0x20, 0x43D, 0x430, 0x439, 0x434, 0x435, 0x43D]"

definition err_processing :: "str \<Rightarrow> str" where
  "err_processing e =
     [0x41E, 0x448, 0x438, 0x431, 0x43A, 0x430, 0x20, 0x43F, 0x440, 0x438, 0x20, 0x43E,
      0x431, 0x440, 0x430, 0x431, 0x43E, 0x442, 0x43A, 0x435, 0x3A, 0x20] @ e"

text \<open>The messages of the two IndexErrors: \<open>string index out of range\<close> and
  \<open>list index out of range\<close>.\<close>

definition string_index_error :: str where
  "string_index_error =
     [0x73, 0x74, 0x72, 0x69, 0x6E, 0x67, 0x20, 0x69, 0x6E, 0x64, 0x65, 0x78, 0x20, 0x6F,
      0x75, 0x74, 0x20, 0x6F, 0x66, 0x20, 0x72, 0x61, 0x6E, 0x67, 0x65]"

definition list_index_error :: str where
  "list_index_error =
     [0x6C, 0x69, 0x73, 0x74, 0x20, 0x69, 0x6E, 0x64, 0x65, 0x78, 0x20, 0x6F,
      0x75, 0x74, 0x20, 0x6F, 0x66, 0x20, 0x72, 0x61, 0x6E, 0x67, 0x65]"

text \<open>
  The state of the reading loop: the list \<open>filtered_words\<close> and what has been printed.
\<close>

record loop_state =
  filtered_words :: "str list"
  printed :: "str list"

text \<open>
  The loop \<open>for line in f\<close> over the lines the file object yields. \<open>Inr\<close> is the loop
  running to its end; \<open>Inl (s, e)\<close> is an exception with message \<open>e\<close> leaving the loop
  in state \<open>s\<close> (the ValueError of \<open>int\<close> is caught inside the loop and is not one).
\<close>

fun read_loop ::
  "lowering \<Rightarrow> int_parser \<Rightarrow> str list \<Rightarrow> loop_state \<Rightarrow> (loop_state \<times> str) + loop_state" where
  "read_loop lower to_int [] s = Inr s"
| "read_loop lower to_int (raw # rest) s =
     (let line = py_strip raw in
      if line = [] then read_loop lower to_int rest s
      else
        let parts = py_split line in
        if length parts \<noteq> 2 then
          read_loop lower to_int rest (s\<lparr>printed := printed s @ [warn_line line]\<rparr>)
        else
          (case getitem parts 0 of
             None \<Rightarrow> Inl (s, list_index_error)
           | Some word \<Rightarrow>
             (case getitem parts 1 of
                None \<Rightarrow> Inl (s, list_index_error)
              | Some tok \<Rightarrow>
                (case to_int tok of
                   None \<Rightarrow>
                     read_loop lower to_int rest (s\<lparr>printed := printed s @ [warn_index line]\<rparr>)
                 | Some index \<Rightarrow>
                   (case should_exclude_word lower word index of
                      None \<Rightarrow> Inl (s, string_index_error)
                    | Some exclude \<Rightarrow>
                        if \<not> exclude then
                          read_loop lower to_int rest
                            (s\<lparr>filtered_words := filtered_words s @ [line]\<rparr>)
                        else read_loop lower to_int rest s)))))"

text \<open>
  One run of \<open>filter_words\<close>: the text written to the output file (\<open>None\<close> when the
  output file is never opened), the texts printed, and the exit status (\<open>1\<close> for
  \<open>sys.exit(1)\<close>, \<open>0\<close> for a normal return).
\<close>

record run =
  written :: "str option"
  stdout :: "str list"
  exit_status :: nat

text \<open>
  The input file is \<open>None\<close> when it does not exist (FileNotFoundError), otherwise the
  list of lines that iterating over the file object yields. Opening and writing the output
  file are taken to succeed.
\<close>

definition filter_words :: "lowering \<Rightarrow> int_parser \<Rightarrow> str \<Rightarrow> str list option \<Rightarrow> run" where
  "filter_words lower to_int input_file f =
     (case f of
        None \<Rightarrow> \<lparr>written = None, stdout = [err_not_found input_file], exit_status = 1\<rparr>
      | Some lines \<Rightarrow>
        (case read_loop lower to_int lines \<lparr>filtered_words = [], printed = []\<rparr> of
           Inl (s, e) \<Rightarrow>
             \<lparr>written = None, stdout = printed s @ [err_processing e], exit_status = 1\<rparr>
         | Inr s \<Rightarrow>
             \<lparr>written = Some (concat (map (\<lambda>line. line @ [0xA]) (filtered_words s))),
              stdout = printed s @ [msg_done, msg_count (length (filtered_words s))],
              exit_status = 0\<rparr>))"

text \<open>
  Reading a text file: in text mode \<open>\r\n\<close> and \<open>\r\<close> become \<open>\n\<close>, and iterating
  yields the lines, each with its \<open>\n\<close> (the last one may lack it).
\<close>

fun translate_newlines :: "str \<Rightarrow> str" where
  "translate_newlines [] = []"
| "translate_newlines [c] = [if c = 0xD then 0xA else c]"
| "translate_newlines (c # d # cs) =
     (if c = 0xD \<and> d = 0xA then 0xA # translate_newlines cs
      else if c = 0xD then 0xA # translate_newlines (d # cs)
      else c # translate_newlines (d # cs))"

fun split_lines :: "str \<Rightarrow> str \<Rightarrow> str list" where
  "split_lines cur [] = (if cur = [] then [] else [cur])"
| "split_lines cur (c # cs) =
     (if c = 0xA then (cur @ [c]) # split_lines [] cs else split_lines (cur @ [c]) cs)"

definition text_lines :: "str \<Rightarrow> str list" where
  "text_lines t = split_lines [] (translate_newlines t)"

section \<open>Specification predicates\<close>

text \<open>
  \<open>vowel_at\<close> is the classification of the specification (section 4.1, isVowelAt), as a
  predicate: in range, and a regular vowel, or a special vowel with no regular vowel next
  to it.
\<close>

definition vowel_at :: "lowering \<Rightarrow> str \<Rightarrow> int \<Rightarrow> bool" where
  "vowel_at lower word i =
     (0 \<le> i \<and> i < int (length word) \<and>
      (lower [word ! nat i] \<in> regular_vowels \<or>
       (lower [word ! nat i] \<in> special_vowels \<and>
        \<not> (i > 0 \<and> lower [word ! nat (i - 1)] \<in> regular_vowels) \<and>
        \<not> (i < int (length word) - 1 \<and> lower [word ! nat (i + 1)] \<in> regular_vowels))))"

text \<open>
  What the reading loop does with one line: \<open>well_formed\<close> lines have two tokens and an
  index that parses; \<open>kept\<close> lines are well formed and excluded by no rule; \<open>warning\<close> is
  what the line makes the loop print.
\<close>

definition well_formed :: "int_parser \<Rightarrow> str \<Rightarrow> bool" where
  "well_formed to_int raw =
     (let parts = py_split (py_strip raw) in
      py_strip raw \<noteq> [] \<and> length parts = 2 \<and> to_int (parts ! 1) \<noteq> None)"

definition malformed :: "int_parser \<Rightarrow> str \<Rightarrow> bool" where
  "malformed to_int raw =
     (let parts = py_split (py_strip raw) in
      py_strip raw \<noteq> [] \<and> (length parts \<noteq> 2 \<or> to_int (parts ! 1) = None))"

definition kept :: "lowering \<Rightarrow> int_parser \<Rightarrow> str \<Rightarrow> bool" where
  "kept lower to_int raw =
     (let parts = py_split (py_strip raw) in
      well_formed to_int raw \<and>
      should_exclude_word lower (parts ! 0) (the (to_int (parts ! 1))) = Some False)"

definition warning :: "int_parser \<Rightarrow> str \<Rightarrow> str list" where
  "warning to_int raw =
     (let line = py_strip raw; parts = py_split line in
      if line = [] then []
      else if length parts \<noteq> 2 then [warn_line line]
      else if to_int (parts ! 1) = None then [warn_index line]
      else [])"

section \<open>Built-ins on concrete inputs\<close>

text \<open>
  To evaluate the functions on concrete words: \<open>str.lower\<close> on strings over the Russian
  and Bashkir alphabets and ASCII, and \<open>int\<close> on tokens whose digits are ASCII (an
  optional sign, then digits with single underscores between them).
\<close>

definition lower_cp :: "cp \<Rightarrow> cp" where
  "lower_cp c =
     (if 0x41 \<le> c \<and> c \<le> 0x5A then c + 0x20
      else if 0x410 \<le> c \<and> c \<le> 0x42F then c + 0x20
      else if 0x400 \<le> c \<and> c \<le> 0x40F then c + 0x50
      else if c \<in> {0x492, 0x498, 0x4A0, 0x4A2, 0x4AA, 0x4AE, 0x4BA, 0x4D8, 0x4E8} then c + 1
      else c)"

definition bashkir_lower :: lowering where
  "bashkir_lower s = map lower_cp s"

definition is_digit :: "cp \<Rightarrow> bool" where
  "is_digit c = (0x30 \<le> c \<and> c \<le> 0x39)"

fun digits_value :: "str \<Rightarrow> bool \<Rightarrow> int \<Rightarrow> int option" where
  "digits_value [] after_digit acc = (if after_digit then Some acc else None)"
| "digits_value (c # cs) after_digit acc =
     (if is_digit c then digits_value cs True (10 * acc + int (c - 0x30))
      else if c = 0x5F \<and> after_digit then digits_value cs False acc
      else None)"

definition ascii_int :: int_parser where
  "ascii_int s =
     (case py_strip s of
        [] \<Rightarrow> None
      | c # cs \<Rightarrow>
          if c = 0x2D then map_option uminus (digits_value cs False 0)
          else if c = 0x2B then digits_value cs False 0
          else digits_value (c # cs) False 0)"

section \<open>Facts used for evaluation\<close>

lemmas vowel_sets = regular_vowels_def get_bashkir_vowels_def special_vowels_def set_of_str_def
lemmas lower_eval = bashkir_lower_def lower_cp_def
lemmas vowel_eval = is_vowel_in_context_def prev_is_regular_def next_is_regular_def getitem_def
lemmas rule_eval = should_exclude_word_def find_last_vowel_index_def enumerate_str_def
  endswith_def startswith_def simple_endings_def complex_endings_def question_words_def upt_rec

lemmas line_eval = py_strip_def py_split_def py_isspace_def ascii_int_def is_digit_def
  text_lines_def

section \<open>The vowel classifier and the last vowel\<close>

lemma getitem_in_range:
  "0 \<le> i \<Longrightarrow> i < int (length xs) \<Longrightarrow> getitem xs i = Some (xs ! nat i)"
  by (simp add: getitem_def Let_def)

lemma prev_is_regular_eq:
  "0 \<le> i \<Longrightarrow> i < int (length word) \<Longrightarrow>
   prev_is_regular lower word i = Some (i > 0 \<and> lower [word ! nat (i - 1)] \<in> regular_vowels)"
  by (simp add: prev_is_regular_def getitem_in_range)

lemma next_is_regular_eq:
  "0 \<le> i \<Longrightarrow> i < int (length word) \<Longrightarrow>
   next_is_regular lower word i =
     Some (i < int (length word) - 1 \<and> lower [word ! nat (i + 1)] \<in> regular_vowels)"
  by (simp add: next_is_regular_def getitem_in_range)

lemma is_vowel_in_context_eq:
  "is_vowel_in_context lower word i = Some (vowel_at lower word i)"
proof (cases "0 \<le> i \<and> i < int (length word)")
  case False
  then show ?thesis by (auto simp: is_vowel_in_context_def vowel_at_def)
next
  case True
  then show ?thesis
    by (simp add: is_vowel_in_context_def vowel_at_def getitem_in_range
        prev_is_regular_eq next_is_regular_eq Let_def)
qed

lemma last_vowel_step:
  assumes "0 \<le> i" "i < int (length word)" "c = word ! nat i"
  shows "last_vowel_loop lower word ((i, c) # rest) li =
         last_vowel_loop lower word rest (if vowel_at lower word i then i else li)"
  using assms
  by (simp add: vowel_at_def prev_is_regular_eq next_is_regular_eq Let_def)

lemma enumerate_str_upt:
  "enumerate_str word = map (\<lambda>k. (int k, word ! k)) [0..<length word]"
  unfolding enumerate_str_def
  by (rule nth_equalityI) simp_all

lemma last_vowel_loop_from:
  "a \<le> length word \<Longrightarrow>
   \<exists>r. last_vowel_loop lower word (map (\<lambda>k. (int k, word ! k)) [a..<length word]) li = Some r \<and>
       ((r = li \<and> (\<forall>p. a \<le> p \<and> p < length word \<longrightarrow> \<not> vowel_at lower word (int p))) \<or>
        (int a \<le> r \<and> vowel_at lower word r \<and>
         (\<forall>p. a \<le> p \<and> p < length word \<and> vowel_at lower word (int p) \<longrightarrow> int p \<le> r)))"
proof (induction "length word - a" arbitrary: a li)
  case 0
  then have "[a..<length word] = []" by simp
  then show ?case by auto
next
  case (Suc n)
  then have lt: "a < length word" by simp
  let ?l' = "if vowel_at lower word (int a) then int a else li"
  have step: "last_vowel_loop lower word (map (\<lambda>k. (int k, word ! k)) [a..<length word]) li =
        last_vowel_loop lower word (map (\<lambda>k. (int k, word ! k)) [Suc a..<length word]) ?l'"
    using lt by (simp add: upt_conv_Cons last_vowel_step del: last_vowel_loop.simps)
  from Suc have "n = length word - Suc a" "Suc a \<le> length word" by simp_all
  from Suc.hyps(1)[OF this, of ?l'] obtain r where
    r: "last_vowel_loop lower word (map (\<lambda>k. (int k, word ! k)) [Suc a..<length word]) ?l' = Some r"
    and c: "(r = ?l' \<and> (\<forall>p. Suc a \<le> p \<and> p < length word \<longrightarrow> \<not> vowel_at lower word (int p))) \<or>
        (int (Suc a) \<le> r \<and> vowel_at lower word r \<and>
         (\<forall>p. Suc a \<le> p \<and> p < length word \<and> vowel_at lower word (int p) \<longrightarrow> int p \<le> r))"
    by blast
  show ?case
  proof (cases "vowel_at lower word (int a)")
    case True
    from c show ?thesis
    proof
      assume h: "r = ?l' \<and> (\<forall>p. Suc a \<le> p \<and> p < length word \<longrightarrow> \<not> vowel_at lower word (int p))"
      with True have ra: "r = int a" by simp
      have "\<forall>p. a \<le> p \<and> p < length word \<and> vowel_at lower word (int p) \<longrightarrow> int p \<le> r"
      proof (intro allI impI)
        fix p assume p: "a \<le> p \<and> p < length word \<and> vowel_at lower word (int p)"
        show "int p \<le> r"
        proof (cases "p = a")
          case True then show ?thesis using ra by simp
        next
          case False
          with p have "Suc a \<le> p" by simp
          with h p show ?thesis by blast
        qed
      qed
      with ra True step r show ?thesis by simp
    next
      assume h: "int (Suc a) \<le> r \<and> vowel_at lower word r \<and>
         (\<forall>p. Suc a \<le> p \<and> p < length word \<and> vowel_at lower word (int p) \<longrightarrow> int p \<le> r)"
      have "\<forall>p. a \<le> p \<and> p < length word \<and> vowel_at lower word (int p) \<longrightarrow> int p \<le> r"
      proof (intro allI impI)
        fix p assume p: "a \<le> p \<and> p < length word \<and> vowel_at lower word (int p)"
        show "int p \<le> r"
        proof (cases "p = a")
          case True then show ?thesis using h by simp
        next
          case False
          with p have "Suc a \<le> p" by simp
          with h p show ?thesis by blast
        qed
      qed
      moreover from h have "int a \<le> r" by simp
      ultimately show ?thesis using h step r by simp
    qed
  next
    case False
    from c show ?thesis
    proof
      assume h: "r = ?l' \<and> (\<forall>p. Suc a \<le> p \<and> p < length word \<longrightarrow> \<not> vowel_at lower word (int p))"
      with False have rl: "r = li" by simp
      have "\<forall>p. a \<le> p \<and> p < length word \<longrightarrow> \<not> vowel_at lower word (int p)"
      proof (intro allI impI)
        fix p assume p: "a \<le> p \<and> p < length word"
        show "\<not> vowel_at lower word (int p)"
        proof (cases "p = a")
          case True then show ?thesis using False by simp
        next
          case F: False
          with p have "Suc a \<le> p" by simp
          with h p show ?thesis by blast
        qed
      qed
      with rl False step r show ?thesis by simp
    next
      assume h: "int (Suc a) \<le> r \<and> vowel_at lower word r \<and>
         (\<forall>p. Suc a \<le> p \<and> p < length word \<and> vowel_at lower word (int p) \<longrightarrow> int p \<le> r)"
      have "\<forall>p. a \<le> p \<and> p < length word \<and> vowel_at lower word (int p) \<longrightarrow> int p \<le> r"
      proof (intro allI impI)
        fix p assume p: "a \<le> p \<and> p < length word \<and> vowel_at lower word (int p)"
        show "int p \<le> r"
        proof (cases "p = a")
          case True then show ?thesis using p False by simp
        next
          case F: False
          with p have "Suc a \<le> p" by simp
          with h p show ?thesis by blast
        qed
      qed
      moreover from h have "int a \<le> r" by simp
      ultimately show ?thesis using h step r by simp
    qed
  qed
qed

lemma vowel_at_range: "vowel_at lower word p \<Longrightarrow> 0 \<le> p \<and> p < int (length word)"
  by (simp add: vowel_at_def)

lemma find_last_vowel_index_spec:
  "\<exists>r. find_last_vowel_index lower word = Some r \<and>
       ((r = - 1 \<and> (\<forall>p. \<not> vowel_at lower word p)) \<or>
        (vowel_at lower word r \<and> (\<forall>p. vowel_at lower word p \<longrightarrow> p \<le> r)))"
proof -
  from last_vowel_loop_from[of 0 word lower "- 1"] obtain r where
    r: "find_last_vowel_index lower word = Some r"
    and c: "(r = - 1 \<and> (\<forall>p. p < length word \<longrightarrow> \<not> vowel_at lower word (int p))) \<or>
        (0 \<le> r \<and> vowel_at lower word r \<and>
         (\<forall>p. p < length word \<and> vowel_at lower word (int p) \<longrightarrow> int p \<le> r))"
    unfolding find_last_vowel_index_def enumerate_str_upt by auto
  have nat_case: "\<And>p. vowel_at lower word p \<Longrightarrow> nat p < length word \<and> int (nat p) = p"
    using vowel_at_range[of lower word] by fastforce
  from c show ?thesis
  proof
    assume h: "r = - 1 \<and> (\<forall>p. p < length word \<longrightarrow> \<not> vowel_at lower word (int p))"
    have "\<forall>p. \<not> vowel_at lower word p"
    proof
      fix p show "\<not> vowel_at lower word p"
      proof
        assume v: "vowel_at lower word p"
        from nat_case[OF v] h have "\<not> vowel_at lower word (int (nat p))" by blast
        with nat_case[OF v] v show False by simp
      qed
    qed
    with h r show ?thesis by simp
  next
    assume h: "0 \<le> r \<and> vowel_at lower word r \<and>
         (\<forall>p. p < length word \<and> vowel_at lower word (int p) \<longrightarrow> int p \<le> r)"
    have "\<forall>p. vowel_at lower word p \<longrightarrow> p \<le> r"
    proof (intro allI impI)
      fix p assume v: "vowel_at lower word p"
      from nat_case[OF v] v have "nat p < length word \<and> vowel_at lower word (int (nat p))" by simp
      with h have "int (nat p) \<le> r" by blast
      with nat_case[OF v] show "p \<le> r" by simp
    qed
    with h r show ?thesis by simp
  qed
qed

lemma vowel_iff: "(is_vowel_in_context lower word p = Some True) = vowel_at lower word p"
  by (simp add: is_vowel_in_context_eq)

lemma not_vowel_iff: "(is_vowel_in_context lower word p = Some False) = (\<not> vowel_at lower word p)"
  by (simp add: is_vowel_in_context_eq)

lemma special_not_regular: "x \<in> special_vowels \<Longrightarrow> x \<notin> regular_vowels"
  by (simp add: regular_vowels_def)

section \<open>The rule engine\<close>

lemma complex_ending_loop_eq:
  "complex_ending_loop lower word wl es =
     Some (list_ex (\<lambda>e. endswith wl e \<and>
                      \<not> (int (length word) - int (length e) - 1 \<ge> 0 \<and>
                         vowel_at lower word (int (length word) - int (length e) - 1))) es)"
  by (induction es) (auto simp: is_vowel_in_context_eq Let_def)

lemma should_exclude_word_total: "\<exists>b. should_exclude_word lower word index = Some b"
proof -
  obtain r where "find_last_vowel_index lower word = Some r"
    using find_last_vowel_index_spec[of lower word] by blast
  then show ?thesis
    by (auto simp: should_exclude_word_def Let_def complex_ending_loop_eq)
qed

lemma should_exclude_word_eq:
  "should_exclude_word lower word index =
     Some (list_ex (endswith (lower word)) simple_endings \<or>
           complex_ending_loop lower word (lower word) complex_endings = Some True \<or>
           list_ex (startswith (lower word)) question_words \<or>
           (find_last_vowel_index lower word \<noteq> Some (- 1) \<and>
            find_last_vowel_index lower word = Some index))"
proof -
  obtain r where "find_last_vowel_index lower word = Some r"
    using find_last_vowel_index_spec[of lower word] by blast
  then show ?thesis
    by (auto simp: should_exclude_word_def Let_def complex_ending_loop_eq)
qed

section \<open>Stripping, lines and the reading loop\<close>

lemma read_loop_step:
  "read_loop lower to_int (raw # rest) s =
     read_loop lower to_int rest
       \<lparr>filtered_words = filtered_words s @ (if kept lower to_int raw then [py_strip raw] else []),
        printed = printed s @ warning to_int raw\<rparr>"
proof -
  obtain fw pr where s: "s = \<lparr>filtered_words = fw, printed = pr\<rparr>"
    by (cases s) simp
  show ?thesis
  proof (cases "py_strip raw = []")
    case True
    then show ?thesis by (simp add: kept_def well_formed_def warning_def Let_def s)
  next
    case ne: False
    show ?thesis
    proof (cases "length (py_split (py_strip raw)) = 2")
      case False
      with ne show ?thesis by (simp add: kept_def well_formed_def warning_def Let_def s)
    next
      case two: True
      then have g: "getitem (py_split (py_strip raw)) 0 = Some (py_split (py_strip raw) ! 0)"
        "getitem (py_split (py_strip raw)) 1 = Some (py_split (py_strip raw) ! 1)"
        by (simp_all add: getitem_def)
      show ?thesis
      proof (cases "to_int (py_split (py_strip raw) ! 1)")
        case None
        with ne two g show ?thesis by (simp add: kept_def well_formed_def warning_def Let_def s)
      next
        case (Some idx)
        obtain b where b: "should_exclude_word lower (py_split (py_strip raw) ! 0) idx = Some b"
          using should_exclude_word_total by blast
        with ne two g Some show ?thesis
          by (cases b) (simp_all add: kept_def well_formed_def warning_def Let_def s)
      qed
    qed
  qed
qed

lemma read_loop_eq:
  "read_loop lower to_int lines s =
     Inr \<lparr>filtered_words = filtered_words s @ map py_strip (filter (kept lower to_int) lines),
          printed = printed s @ concat (map (warning to_int) lines)\<rparr>"
proof (induction lines arbitrary: s)
  case Nil
  then show ?case by simp
next
  case (Cons raw rest)
  show ?case
    unfolding read_loop_step Cons.IH by simp
qed

lemma py_strip_subset: "set (py_strip s) \<subseteq> set s"
proof
  fix x assume "x \<in> set (py_strip s)"
  then have "x \<in> set (dropWhile py_isspace (rev (dropWhile py_isspace s)))"
    by (simp add: py_strip_def)
  then have "x \<in> set (rev (dropWhile py_isspace s))" by (rule set_dropWhileD)
  then have "x \<in> set (dropWhile py_isspace s)" by simp
  then show "x \<in> set s" by (rule set_dropWhileD)
qed

lemma py_strip_fixed:
  assumes "s = [] \<or> (\<not> py_isspace (hd s) \<and> \<not> py_isspace (last s))"
  shows "py_strip s = s"
proof (cases s)
  case Nil
  then show ?thesis by (simp add: py_strip_def)
next
  case (Cons a as)
  with assms have h: "\<not> py_isspace a" and l: "\<not> py_isspace (last s)" by simp_all
  from Cons h have d: "dropWhile py_isspace s = s" by simp
  from Cons have "rev s \<noteq> []" by simp
  then obtain b bs where r: "rev s = b # bs" by (cases "rev s") simp_all
  from Cons have "hd (rev s) = last s" by (simp add: hd_rev)
  with r l have "\<not> py_isspace b" by simp
  with r have "dropWhile py_isspace (rev s) = rev s" by simp
  with d show ?thesis by (simp add: py_strip_def)
qed

lemma py_strip_ends:
  assumes "py_strip s \<noteq> []"
  shows "\<not> py_isspace (hd (py_strip s)) \<and> \<not> py_isspace (last (py_strip s))"
proof -
  let ?ys = "dropWhile py_isspace s"
  let ?zs = "dropWhile py_isspace (rev ?ys)"
  from assms have zs: "?zs \<noteq> []" by (simp add: py_strip_def)
  have ys: "?ys \<noteq> []"
  proof
    assume "?ys = []"
    then have "rev ?ys = []" by (simp only: rev.simps)
    then have "?zs = []" by (simp only: dropWhile.simps)
    with zs show False by blast
  qed
  have hz: "\<not> py_isspace (hd ?zs)" using zs by (rule hd_dropWhile)
  have hy: "\<not> py_isspace (hd ?ys)" using ys by (rule hd_dropWhile)
  have "last ?zs = last (rev ?ys)"
    using zs by (metis last_appendR takeWhile_dropWhile_id)
  also have "\<dots> = hd ?ys" using ys by (simp add: last_rev)
  finally have lz: "last ?zs = hd ?ys" .
  have "hd (py_strip s) = last ?zs" using zs by (simp add: py_strip_def hd_rev)
  moreover have "last (py_strip s) = hd ?zs" using zs by (simp add: py_strip_def last_rev)
  ultimately show ?thesis using hz hy lz by simp
qed

lemma py_strip_idem: "py_strip (py_strip s) = py_strip s"
  using py_strip_ends[of s] by (intro py_strip_fixed) blast

lemma py_strip_snoc_space:
  assumes "py_isspace w"
  shows "py_strip (s @ [w]) = py_strip s"
proof (cases "\<forall>x\<in>set s. py_isspace x")
  case True
  then have a: "dropWhile py_isspace s = []" by (simp only: dropWhile_eq_Nil_conv)
  from True assms have "\<forall>x\<in>set (s @ [w]). py_isspace x" by simp
  then have b: "dropWhile py_isspace (s @ [w]) = []" by (simp only: dropWhile_eq_Nil_conv)
  show ?thesis unfolding py_strip_def a b ..
next
  case False
  then have "dropWhile py_isspace (s @ [w]) = dropWhile py_isspace s @ [w]"
    by (auto simp: dropWhile_append1)
  then show ?thesis using assms by (simp add: py_strip_def)
qed

lemma newline_is_space: "py_isspace 0xA"
  by (simp add: py_isspace_def)

lemma kept_cong: "py_strip a = py_strip b \<Longrightarrow> kept lower to_int a = kept lower to_int b"
  by (simp add: kept_def well_formed_def)

lemma kept_nonempty: "kept lower to_int raw \<Longrightarrow> py_strip raw \<noteq> []"
  by (simp add: kept_def well_formed_def Let_def)

lemma malformed_not_kept: "malformed to_int raw \<Longrightarrow> \<not> kept lower to_int raw"
  by (auto simp: malformed_def kept_def well_formed_def Let_def)

lemma refilter_kept:
  "map py_strip (filter (kept lower to_int)
     (map (\<lambda>l. l @ [0xA]) (map py_strip (filter (kept lower to_int) ls)))) =
   map py_strip (filter (kept lower to_int) ls)"
proof (induction ls)
  case Nil
  then show ?case by simp
next
  case (Cons raw ls)
  have s: "py_strip (py_strip raw @ [0xA]) = py_strip raw"
    using py_strip_snoc_space[OF newline_is_space] py_strip_idem by simp
  then have "kept lower to_int (py_strip raw @ [0xA]) = kept lower to_int raw"
    by (rule kept_cong)
  with Cons s show ?case by simp
qed

lemma translate_newlines_no_cr: "0xD \<notin> set (translate_newlines t)"
  by (induction t rule: translate_newlines.induct) auto

lemma translate_newlines_fixed: "0xD \<notin> set t \<Longrightarrow> translate_newlines t = t"
  by (induction t rule: translate_newlines.induct) auto

lemma split_lines_line:
  "0xA \<notin> set l \<Longrightarrow> split_lines cur (l @ 0xA # rest) = (cur @ l @ [0xA]) # split_lines [] rest"
  by (induction l arbitrary: cur) simp_all

lemma split_lines_concat:
  "\<forall>l\<in>set ls. 0xA \<notin> set l \<Longrightarrow>
   split_lines [] (concat (map (\<lambda>l. l @ [0xA]) ls)) = map (\<lambda>l. l @ [0xA]) ls"
  by (induction ls) (simp_all add: split_lines_line)

lemma split_lines_members:
  "l \<in> set (split_lines cur t) \<Longrightarrow> 0xA \<notin> set cur \<Longrightarrow>
   l \<noteq> [] \<and> 0xA \<notin> set (butlast l) \<and> set l \<subseteq> set cur \<union> set t"
proof (induction t arbitrary: cur)
  case Nil
  then show ?case by (auto split: if_splits dest: in_set_butlastD)
next
  case (Cons c cs)
  show ?case
  proof (cases "c = 0xA")
    case True
    with Cons.prems have "l = cur @ [c] \<or> l \<in> set (split_lines [] cs)" by simp
    then show ?thesis
    proof
      assume "l = cur @ [c]"
      with Cons.prems show ?thesis by auto
    next
      assume "l \<in> set (split_lines [] cs)"
      from Cons.IH[OF this] show ?thesis by auto
    qed
  next
    case False
    with Cons.prems have "l \<in> set (split_lines (cur @ [c]) cs)" "0xA \<notin> set (cur @ [c])"
      by simp_all
    from Cons.IH[OF this] show ?thesis by auto
  qed
qed

lemma text_lines_strip_clean:
  assumes "raw \<in> set (text_lines t)"
  shows "0xA \<notin> set (py_strip raw) \<and> 0xD \<notin> set (py_strip raw)"
proof -
  from assms have m: "raw \<noteq> [] \<and> 0xA \<notin> set (butlast raw) \<and> set raw \<subseteq> set (translate_newlines t)"
    using split_lines_members[of raw "[]" "translate_newlines t"] by (simp add: text_lines_def)
  then have cr: "0xD \<notin> set (py_strip raw)"
    using translate_newlines_no_cr[of t] py_strip_subset[of raw] by blast
  have "0xA \<notin> set (py_strip raw)"
  proof (cases "last raw = 0xA")
    case True
    with m have "raw = butlast raw @ [0xA]" by (metis append_butlast_last_id)
    then have "py_strip raw = py_strip (butlast raw)"
      using py_strip_snoc_space[OF newline_is_space, of "butlast raw"] by simp
    with m py_strip_subset[of "butlast raw"] show ?thesis by auto
  next
    case False
    with m have "0xA \<notin> set raw"
      by (metis append_butlast_last_id set_ConsD set_append UnE list.set(1) empty_iff)
    with py_strip_subset[of raw] show ?thesis by blast
  qed
  with cr show ?thesis by simp
qed

lemma text_lines_of_written:
  assumes "\<forall>k\<in>set ks. 0xA \<notin> set k \<and> 0xD \<notin> set k"
  shows "text_lines (concat (map (\<lambda>l. l @ [0xA]) ks)) = map (\<lambda>l. l @ [0xA]) ks"
proof -
  have "0xD \<notin> set (concat (map (\<lambda>l. l @ [0xA]) ks))" using assms by auto
  then have "translate_newlines (concat (map (\<lambda>l. l @ [0xA]) ks)) = concat (map (\<lambda>l. l @ [0xA]) ks)"
    by (rule translate_newlines_fixed)
  then show ?thesis using assms by (simp add: text_lines_def split_lines_concat)
qed

lemma filter_words_eq:
  "filter_words lower to_int input_file (Some ls) =
     \<lparr>written = Some (concat (map (\<lambda>line. line @ [0xA]) (map py_strip (filter (kept lower to_int) ls)))),
      stdout = concat (map (warning to_int) ls) @
               [msg_done, msg_count (length (filter (kept lower to_int) ls))],
      exit_status = 0\<rparr>"
  by (simp add: filter_words_def read_loop_eq)

lemma py_strip_decomp:
  "\<exists>a b. raw = a @ py_strip raw @ b \<and> (\<forall>c\<in>set a \<union> set b. py_isspace c)"
proof -
  let ?ys = "dropWhile py_isspace raw"
  let ?a = "takeWhile py_isspace raw"
  let ?b = "rev (takeWhile py_isspace (rev ?ys))"
  have "?ys = rev (rev ?ys)" by (simp only: rev_rev_ident)
  also have "\<dots> = rev (takeWhile py_isspace (rev ?ys) @ dropWhile py_isspace (rev ?ys))"
    by (simp only: takeWhile_dropWhile_id)
  also have "\<dots> = rev (dropWhile py_isspace (rev ?ys)) @ ?b"
    by (simp only: rev_append)
  finally have "?ys = py_strip raw @ ?b" by (simp only: py_strip_def)
  moreover have "raw = ?a @ ?ys" by simp
  ultimately have "raw = ?a @ py_strip raw @ ?b" by simp
  moreover have "\<forall>c\<in>set ?a \<union> set ?b. py_isspace c"
    by (auto dest: set_takeWhileD)
  ultimately show ?thesis by blast
qed

lemma written_text_lines:
  "text_lines (concat (map (\<lambda>l. l @ [0xA]) (map py_strip (filter (kept lower to_int) (text_lines t))))) =
   map (\<lambda>l. l @ [0xA]) (map py_strip (filter (kept lower to_int) (text_lines t)))"
  by (rule text_lines_of_written) (auto dest: text_lines_strip_clean)

section \<open>The claims\<close>



text \<open>
  C2. \<open>is_vowel_in_context\<close> never raises. It is false out of range (negative or at
  least the length) and for a character outside the vowel alphabet, true for a regular
  vowel, and for a special vowel (U+04AF, U+0443) true unless the previous or the next
  character, where it exists, lowercases to a regular vowel. The alphabet is the disjoint
  union of the regular and the special vowels.
\<close>

theorem is_vowel_in_context_spec:
  "is_vowel_in_context lower word index =
     Some (0 \<le> index \<and> index < int (length word) \<and>
       (lower [word ! nat index] \<in> regular_vowels \<or>
        (lower [word ! nat index] \<in> special_vowels \<and>
         \<not> (index > 0 \<and> lower [word ! nat (index - 1)] \<in> regular_vowels) \<and>
         \<not> (index < int (length word) - 1 \<and> lower [word ! nat (index + 1)] \<in> regular_vowels)))) \<and>
   special_vowels = {[0x4AF], [0x443]} \<and>
   regular_vowels \<union> special_vowels = get_bashkir_vowels \<and>
   regular_vowels \<inter> special_vowels = {}"
proof -
  have "special_vowels = {[0x4AF], [0x443]}" by (simp add: vowel_sets)
  moreover have "special_vowels \<subseteq> get_bashkir_vowels"
    by (simp add: get_bashkir_vowels_def special_vowels_def set_of_str_def)
  then have "regular_vowels \<union> special_vowels = get_bashkir_vowels"
    unfolding regular_vowels_def by blast
  moreover have "regular_vowels \<inter> special_vowels = {}"
    unfolding regular_vowels_def by blast
  ultimately show ?thesis
    using is_vowel_in_context_eq[of lower word index] by (simp only: vowel_at_def simp_thms)
qed

theorem is_vowel_in_context_spec_witness:
  "is_vowel_in_context bashkir_lower [0x442, 0x430, 0x443] 1 = Some True \<and>
   is_vowel_in_context bashkir_lower [0x442, 0x430, 0x443] 2 = Some False \<and>
   is_vowel_in_context bashkir_lower [0x442, 0x430, 0x443] 3 = Some False \<and>
   is_vowel_in_context bashkir_lower [0x442, 0x430, 0x443] (- 1) = Some False \<and>
   is_vowel_in_context bashkir_lower [0x442, 0x430, 0x443] 0 = Some False \<and>
   is_vowel_in_context bashkir_lower [0x441, 0x423] 1 = Some True \<and>
   is_vowel_in_context bashkir_lower [0x4AF] 0 = Some True"
  using is_vowel_in_context_spec [of bashkir_lower "[0x442, 0x430, 0x443]" 1, THEN conjunct1]
    is_vowel_in_context_spec [of bashkir_lower "[0x442, 0x430, 0x443]" 2, THEN conjunct1]
    is_vowel_in_context_spec [of bashkir_lower "[0x442, 0x430, 0x443]" 3, THEN conjunct1]
    is_vowel_in_context_spec [of bashkir_lower "[0x442, 0x430, 0x443]" "- 1", THEN conjunct1]
    is_vowel_in_context_spec [of bashkir_lower "[0x442, 0x430, 0x443]" 0, THEN conjunct1]
    is_vowel_in_context_spec [of bashkir_lower "[0x441, 0x423]" 1, THEN conjunct1]
    is_vowel_in_context_spec [of bashkir_lower "[0x4AF]" 0, THEN conjunct1]
  by (simp add: lower_eval vowel_sets)

text \<open>
  C3. \<open>find_last_vowel_index\<close> returns the greatest position at which
  \<open>is_vowel_in_context\<close> holds, and \<open>-1\<close> when there is none; at every position of
  the word, one turn of its loop updates \<open>last_index\<close> exactly when
  \<open>is_vowel_in_context\<close> holds there.
\<close>

theorem find_last_vowel_index_greatest:
  "(\<exists>r. find_last_vowel_index lower word = Some r \<and>
       ((r = - 1 \<and> (\<forall>p. is_vowel_in_context lower word p \<noteq> Some True)) \<or>
        (is_vowel_in_context lower word r = Some True \<and>
         (\<forall>p. is_vowel_in_context lower word p = Some True \<longrightarrow> p \<le> r)))) \<and>
   (0 \<le> i \<and> i < int (length word) \<longrightarrow>
      last_vowel_loop lower word ((i, word ! nat i) # rest) li =
      last_vowel_loop lower word rest
        (if is_vowel_in_context lower word i = Some True then i else li))"
proof -
  have "0 \<le> i \<and> i < int (length word) \<longrightarrow>
      last_vowel_loop lower word ((i, word ! nat i) # rest) li =
      last_vowel_loop lower word rest
        (if is_vowel_in_context lower word i = Some True then i else li)"
    using last_vowel_step[of i word "word ! nat i" lower rest li] by (simp add: vowel_iff)
  moreover have "\<exists>r. find_last_vowel_index lower word = Some r \<and>
       ((r = - 1 \<and> (\<forall>p. is_vowel_in_context lower word p \<noteq> Some True)) \<or>
        (is_vowel_in_context lower word r = Some True \<and>
         (\<forall>p. is_vowel_in_context lower word p = Some True \<longrightarrow> p \<le> r)))"
    using find_last_vowel_index_spec[of lower word] by (simp only: vowel_iff)
  ultimately show ?thesis by (rule conjI[rotated])
qed

theorem find_last_vowel_index_greatest_witness:
  "find_last_vowel_index bashkir_lower [0x4A1, 0x430, 0x43B, 0x430, 0x43C] = Some 3 \<and>
   is_vowel_in_context bashkir_lower [0x4A1, 0x430, 0x43B, 0x430, 0x43C] 3 = Some True \<and>
   is_vowel_in_context bashkir_lower [0x4A1, 0x430, 0x43B, 0x430, 0x43C] 4 \<noteq> Some True \<and>
   find_last_vowel_index bashkir_lower [0x431, 0x440, 0x440] = Some (- 1) \<and>
   is_vowel_in_context bashkir_lower [0x431, 0x440, 0x440] 1 \<noteq> Some True \<and>
   (0::int) \<le> 1 \<and> (1::int) < int (length [0x4A1, 0x430, 0x43B, 0x430, 0x43C::nat]) \<and>
   last_vowel_loop bashkir_lower [0x4A1, 0x430, 0x43B, 0x430, 0x43C]
     [(1, [0x4A1, 0x430, 0x43B, 0x430, 0x43C] ! nat 1)] (- 1) = Some 1"
proof -
  have a: "find_last_vowel_index bashkir_lower [0x4A1, 0x430, 0x43B, 0x430, 0x43C] = Some 3"
    by (simp add: rule_eval vowel_eval vowel_sets lower_eval)
  have b: "find_last_vowel_index bashkir_lower [0x431, 0x440, 0x440] = Some (- 1)"
    by (simp add: rule_eval vowel_eval vowel_sets lower_eval)
  from a find_last_vowel_index_greatest
    [of bashkir_lower "[0x4A1, 0x430, 0x43B, 0x430, 0x43C]", THEN conjunct1]
  have "is_vowel_in_context bashkir_lower [0x4A1, 0x430, 0x43B, 0x430, 0x43C] 3 = Some True \<and>
        (\<forall>p. is_vowel_in_context bashkir_lower [0x4A1, 0x430, 0x43B, 0x430, 0x43C] p = Some True \<longrightarrow> p \<le> 3)"
    by auto
  then have c: "is_vowel_in_context bashkir_lower [0x4A1, 0x430, 0x43B, 0x430, 0x43C] 3 = Some True \<and>
      is_vowel_in_context bashkir_lower [0x4A1, 0x430, 0x43B, 0x430, 0x43C] 4 \<noteq> Some True"
    by fastforce
  have nv: "is_vowel_in_context bashkir_lower [0x431, 0x440, 0x440] (- 1) \<noteq> Some True"
    by (simp add: vowel_eval)
  from b nv find_last_vowel_index_greatest
    [of bashkir_lower "[0x431, 0x440, 0x440]", THEN conjunct1]
  have d: "\<forall>p. is_vowel_in_context bashkir_lower [0x431, 0x440, 0x440] p \<noteq> Some True"
    by auto
  have h: "(0::int) \<le> 1 \<and> (1::int) < int (length [0x4A1, 0x430, 0x43B, 0x430, 0x43C::nat])"
    by simp
  have v: "is_vowel_in_context bashkir_lower [0x4A1, 0x430, 0x43B, 0x430, 0x43C] 1 = Some True"
    by (simp add: vowel_eval vowel_sets lower_eval)
  from h v find_last_vowel_index_greatest
    [of bashkir_lower "[0x4A1, 0x430, 0x43B, 0x430, 0x43C]" 1 "[]" "- 1", THEN conjunct2]
  have e: "last_vowel_loop bashkir_lower [0x4A1, 0x430, 0x43B, 0x430, 0x43C]
     [(1, [0x4A1, 0x430, 0x43B, 0x430, 0x43C] ! nat 1)] (- 1) = Some 1"
    by simp
  from a b c d e h show ?thesis by blast
qed

text \<open>
  C4. \<open>should_exclude_word\<close> is the disjunction of the four rules, and the last one,
  the only one that reads \<open>index\<close>, holds exactly when \<open>find_last_vowel_index\<close> is not
  \<open>-1\<close> and equals \<open>index\<close>. For a word without a qualifying vowel, passing \<open>-1\<close>
  leaves the decision to the other three rules.
\<close>

theorem last_vowel_match_rule:
  "should_exclude_word lower word index =
     Some (list_ex (endswith (lower word)) simple_endings \<or>
           complex_ending_loop lower word (lower word) complex_endings = Some True \<or>
           list_ex (startswith (lower word)) question_words \<or>
           (find_last_vowel_index lower word \<noteq> Some (- 1) \<and>
            find_last_vowel_index lower word = Some index)) \<and>
   (find_last_vowel_index lower word = Some (- 1) \<longrightarrow>
    should_exclude_word lower word (- 1) =
      Some (list_ex (endswith (lower word)) simple_endings \<or>
            complex_ending_loop lower word (lower word) complex_endings = Some True \<or>
            list_ex (startswith (lower word)) question_words))"
  by (simp add: should_exclude_word_eq)

theorem last_vowel_match_rule_witness:
  "find_last_vowel_index bashkir_lower [0x431, 0x440, 0x440] = Some (- 1) \<and>
   should_exclude_word bashkir_lower [0x431, 0x440, 0x440] (- 1) = Some False \<and>
   find_last_vowel_index bashkir_lower [0x4A1, 0x430, 0x43B, 0x430, 0x43C] = Some 3 \<and>
   should_exclude_word bashkir_lower [0x4A1, 0x430, 0x43B, 0x430, 0x43C] 3 = Some True \<and>
   should_exclude_word bashkir_lower [0x4A1, 0x430, 0x43B, 0x430, 0x43C] 1 = Some False"
proof -
  have a: "find_last_vowel_index bashkir_lower [0x431, 0x440, 0x440] = Some (- 1)"
    by (simp add: rule_eval vowel_eval vowel_sets lower_eval)
  have b: "find_last_vowel_index bashkir_lower [0x4A1, 0x430, 0x43B, 0x430, 0x43C] = Some 3"
    by (simp add: rule_eval vowel_eval vowel_sets lower_eval)
  have c: "complex_ending_loop bashkir_lower [0x431, 0x440, 0x440]
             (bashkir_lower [0x431, 0x440, 0x440]) complex_endings = Some False"
    by (simp add: rule_eval vowel_eval vowel_sets lower_eval)
  have d: "complex_ending_loop bashkir_lower [0x4A1, 0x430, 0x43B, 0x430, 0x43C]
             (bashkir_lower [0x4A1, 0x430, 0x43B, 0x430, 0x43C]) complex_endings = Some False"
    by (simp add: rule_eval vowel_eval vowel_sets lower_eval)
  have e: "\<not> list_ex (endswith (bashkir_lower [0x431, 0x440, 0x440])) simple_endings"
    "\<not> list_ex (startswith (bashkir_lower [0x431, 0x440, 0x440])) question_words"
    "\<not> list_ex (endswith (bashkir_lower [0x4A1, 0x430, 0x43B, 0x430, 0x43C])) simple_endings"
    "\<not> list_ex (startswith (bashkir_lower [0x4A1, 0x430, 0x43B, 0x430, 0x43C])) question_words"
    by (simp_all add: rule_eval lower_eval)
  from a c e last_vowel_match_rule [of bashkir_lower "[0x431, 0x440, 0x440]" "- 1", THEN conjunct2]
  have "should_exclude_word bashkir_lower [0x431, 0x440, 0x440] (- 1) = Some False"
    by simp
  moreover
  from b d e last_vowel_match_rule [of bashkir_lower "[0x4A1, 0x430, 0x43B, 0x430, 0x43C]" 3, THEN conjunct1]
  have "should_exclude_word bashkir_lower [0x4A1, 0x430, 0x43B, 0x430, 0x43C] 3 = Some True"
    by simp
  moreover
  from b d e last_vowel_match_rule [of bashkir_lower "[0x4A1, 0x430, 0x43B, 0x430, 0x43C]" 1, THEN conjunct1]
  have "should_exclude_word bashkir_lower [0x4A1, 0x430, 0x43B, 0x430, 0x43C] 1 = Some False"
    by simp
  ultimately show ?thesis using a b by blast
qed

text \<open>
  C5. Filtering is idempotent: running \<open>filter_words\<close> on the text it wrote writes the
  same text again, and keeps the same lines in the same order.
\<close>

theorem filter_words_idempotent:
  "\<exists>w. written (filter_words lower to_int input_file (Some (text_lines t))) = Some w \<and>
       written (filter_words lower to_int output_file (Some (text_lines w))) = Some w \<and>
       map py_strip (filter (kept lower to_int) (text_lines w)) =
       map py_strip (filter (kept lower to_int) (text_lines t))"
proof -
  let ?K = "map py_strip (filter (kept lower to_int) (text_lines t))"
  let ?w = "concat (map (\<lambda>l. l @ [0xA]) ?K)"
  have first: "written (filter_words lower to_int input_file (Some (text_lines t))) = Some ?w"
    by (simp add: filter_words_eq)
  have ls: "text_lines ?w = map (\<lambda>l. l @ [0xA]) ?K"
    by (rule written_text_lines)
  have again: "map py_strip (filter (kept lower to_int) (text_lines ?w)) = ?K"
    unfolding ls by (rule refilter_kept)
  have "written (filter_words lower to_int output_file (Some (text_lines ?w))) =
      Some (concat (map (\<lambda>l. l @ [0xA]) (map py_strip (filter (kept lower to_int) (text_lines ?w)))))"
    by (simp add: filter_words_eq)
  then have second: "written (filter_words lower to_int output_file (Some (text_lines ?w))) = Some ?w"
    unfolding again .
  from first second again show ?thesis by blast
qed

text \<open>
  C6, as the code has it. The vowel alphabet is a fixed set of exactly twelve one-character
  strings: U+0430 U+04D9 U+043E U+04E9 U+04AF U+0443 U+044B U+0438 U+044D U+0435 U+044F
  U+044E.
\<close>

theorem vowel_alphabet_twelve:
  "card get_bashkir_vowels = 12 \<and>
   get_bashkir_vowels =
     {[0x430], [0x4D9], [0x43E], [0x4E9], [0x4AF], [0x443], [0x44B], [0x438], [0x44D],
      [0x435], [0x44F], [0x44E]}"
  by (simp add: get_bashkir_vowels_def set_of_str_def)

theorem vowel_alphabet_not_eleven: "card get_bashkir_vowels \<noteq> 11"
  by (simp add: get_bashkir_vowels_def set_of_str_def)

text \<open>
  C7, as the code has it. The text written consists of the kept lines in input order, each
  with its leading and trailing whitespace removed and otherwise unchanged (a kept line is
  whitespace, then the written line, then whitespace), each followed by one newline. A
  written line is not empty and neither starts nor ends with whitespace, so the output has
  no blank line.
\<close>

theorem kept_lines_written_stripped:
  "\<exists>w. written (filter_words lower to_int input_file (Some (text_lines t))) = Some w \<and>
       text_lines w =
         map (\<lambda>raw. py_strip raw @ [0xA]) (filter (kept lower to_int) (text_lines t)) \<and>
       (kept lower to_int raw \<longrightarrow>
          py_strip raw \<noteq> [] \<and>
          \<not> py_isspace (hd (py_strip raw)) \<and> \<not> py_isspace (last (py_strip raw)) \<and>
          (\<exists>a b. raw = a @ py_strip raw @ b \<and> (\<forall>c\<in>set a \<union> set b. py_isspace c)))"
proof -
  have "kept lower to_int raw \<longrightarrow>
          py_strip raw \<noteq> [] \<and>
          \<not> py_isspace (hd (py_strip raw)) \<and> \<not> py_isspace (last (py_strip raw)) \<and>
          (\<exists>a b. raw = a @ py_strip raw @ b \<and> (\<forall>c\<in>set a \<union> set b. py_isspace c))"
    using kept_nonempty[of lower to_int raw] py_strip_ends[of raw] py_strip_decomp[of raw]
    by blast
  moreover have "text_lines (concat (map (\<lambda>l. l @ [0xA]) (map py_strip (filter (kept lower to_int) (text_lines t))))) =
     map (\<lambda>raw. py_strip raw @ [0xA]) (filter (kept lower to_int) (text_lines t))"
    unfolding written_text_lines by (simp only: map_map comp_def)
  moreover have "written (filter_words lower to_int input_file (Some (text_lines t))) =
     Some (concat (map (\<lambda>l. l @ [0xA]) (map py_strip (filter (kept lower to_int) (text_lines t)))))"
    by (simp add: filter_words_eq)
  ultimately show ?thesis by blast
qed

theorem kept_lines_written_stripped_witness:
  "kept bashkir_lower ascii_int [0x4A1, 0x430, 0x43B, 0x430, 0x43C, 0x9, 0x31, 0x20, 0xA] \<and>
   written (filter_words bashkir_lower ascii_int []
     (Some (text_lines [0x4A1, 0x430, 0x43B, 0x430, 0x43C, 0x9, 0x31, 0x20, 0xA]))) =
     Some [0x4A1, 0x430, 0x43B, 0x430, 0x43C, 0x9, 0x31, 0xA] \<and>
   py_strip [0x4A1, 0x430, 0x43B, 0x430, 0x43C, 0x9, 0x31, 0x20, 0xA] =
     [0x4A1, 0x430, 0x43B, 0x430, 0x43C, 0x9, 0x31]"
proof -
  have k: "kept bashkir_lower ascii_int [0x4A1, 0x430, 0x43B, 0x430, 0x43C, 0x9, 0x31, 0x20, 0xA]"
    by (simp add: kept_def well_formed_def line_eval rule_eval vowel_eval vowel_sets lower_eval)
  have s: "py_strip [0x4A1, 0x430, 0x43B, 0x430, 0x43C, 0x9, 0x31, 0x20, 0xA] =
     [0x4A1, 0x430, 0x43B, 0x430, 0x43C, 0x9, 0x31]"
    by (simp add: line_eval)
  have l: "text_lines [0x4A1, 0x430, 0x43B, 0x430, 0x43C, 0x9, 0x31, 0x20, 0xA] =
     [ [0x4A1, 0x430, 0x43B, 0x430, 0x43C, 0x9, 0x31, 0x20, 0xA] ]"
    by (simp add: line_eval)
  from kept_lines_written_stripped [of bashkir_lower ascii_int "[]"
      "[0x4A1, 0x430, 0x43B, 0x430, 0x43C, 0x9, 0x31, 0x20, 0xA]"]
  obtain w where w: "written (filter_words bashkir_lower ascii_int []
     (Some (text_lines [0x4A1, 0x430, 0x43B, 0x430, 0x43C, 0x9, 0x31, 0x20, 0xA]))) = Some w"
    and t: "text_lines w = map (\<lambda>raw. py_strip raw @ [0xA]) (filter (kept bashkir_lower ascii_int)
       (text_lines [0x4A1, 0x430, 0x43B, 0x430, 0x43C, 0x9, 0x31, 0x20, 0xA]))"
    by blast
  have "w = [0x4A1, 0x430, 0x43B, 0x430, 0x43C, 0x9, 0x31, 0xA]"
    using w by (simp add: filter_words_eq l k s)
  with w k s show ?thesis by simp
qed

theorem verbatim_output_counterexample:
  "kept bashkir_lower ascii_int [0x4A1, 0x430, 0x43B, 0x430, 0x43C, 0x20, 0x31, 0x20, 0xA] \<and>
   text_lines [0x4A1, 0x430, 0x43B, 0x430, 0x43C, 0x20, 0x31, 0x20, 0xA] =
     [ [0x4A1, 0x430, 0x43B, 0x430, 0x43C, 0x20, 0x31, 0x20, 0xA] ] \<and>
   written (filter_words bashkir_lower ascii_int []
     (Some (text_lines [0x4A1, 0x430, 0x43B, 0x430, 0x43C, 0x20, 0x31, 0x20, 0xA]))) =
     Some [0x4A1, 0x430, 0x43B, 0x430, 0x43C, 0x20, 0x31, 0xA] \<and>
   [0x4A1, 0x430, 0x43B, 0x430, 0x43C, 0x20, 0x31, 0x20, 0xA] \<notin>
     set (text_lines [0x4A1, 0x430, 0x43B, 0x430, 0x43C, 0x20, 0x31, 0xA])"
  by (simp add: filter_words_def kept_def well_formed_def line_eval rule_eval vowel_eval
      vowel_sets lower_eval)

text \<open>
  C8. \<open>should_exclude_word\<close> returns a boolean for every word and every integer index
  (no IndexError is raised), and two indices that agree on whether they equal
  \<open>find_last_vowel_index\<close> of the word give the same result.
\<close>

theorem should_exclude_word_never_raises:
  "(\<exists>b. should_exclude_word lower word index = Some b) \<and>
   ((find_last_vowel_index lower word = Some index) =
    (find_last_vowel_index lower word = Some index') \<longrightarrow>
    should_exclude_word lower word index = should_exclude_word lower word index')"
  by (simp add: should_exclude_word_eq)

theorem should_exclude_word_never_raises_witness:
  "(\<exists>b. should_exclude_word bashkir_lower [] (- 5) = Some b) \<and>
   ((find_last_vowel_index bashkir_lower [0x4A1, 0x430, 0x43B, 0x430, 0x43C] = Some 7) =
    (find_last_vowel_index bashkir_lower [0x4A1, 0x430, 0x43B, 0x430, 0x43C] = Some (- 9))) \<and>
   should_exclude_word bashkir_lower [0x4A1, 0x430, 0x43B, 0x430, 0x43C] 7 =
   should_exclude_word bashkir_lower [0x4A1, 0x430, 0x43B, 0x430, 0x43C] (- 9)"
proof -
  have h: "(find_last_vowel_index bashkir_lower [0x4A1, 0x430, 0x43B, 0x430, 0x43C] = Some 7) =
    (find_last_vowel_index bashkir_lower [0x4A1, 0x430, 0x43B, 0x430, 0x43C] = Some (- 9))"
    by (simp add: rule_eval vowel_eval vowel_sets lower_eval)
  show ?thesis
    using h should_exclude_word_never_raises [of bashkir_lower "[]" "- 5", THEN conjunct1]
      should_exclude_word_never_raises
        [of bashkir_lower "[0x4A1, 0x430, 0x43B, 0x430, 0x43C]" 7 "- 9", THEN conjunct2]
    by blast
qed

text \<open>
  C9. A line that is not empty after stripping and is malformed (not two tokens, or an
  index that \<open>int\<close> rejects) makes the loop print one warning, at the place of the line
  in the output order: the text U+041F ... \<open>'\<close>, the stripped line, \<open>', \<close> ... U+043C,
  with the wording for a wrong token count or for a wrong index. The loop goes on with the
  following lines, the line is not among the kept lines, and the run writes the same text
  and prints the same closing lines, with the same count, as the run on the input without
  that line; what is printed differs by that one warning only.
\<close>

theorem malformed_line_skipped:
  assumes "malformed to_int raw"
  shows "\<exists>sp s s' rest.
     read_loop lower to_int pre \<lparr>filtered_words = [], printed = []\<rparr> = Inr sp \<and>
     read_loop lower to_int (pre @ raw # post) \<lparr>filtered_words = [], printed = []\<rparr> = Inr s \<and>
     read_loop lower to_int (pre @ post) \<lparr>filtered_words = [], printed = []\<rparr> = Inr s' \<and>
     printed s' = printed sp @ rest \<and>
     printed s = printed sp @
       [if length (py_split (py_strip raw)) \<noteq> 2 then
          [0x41F, 0x440, 0x435, 0x434, 0x443, 0x43F, 0x440, 0x435, 0x436, 0x434, 0x435,
           0x43D, 0x438, 0x435, 0x3A, 0x20, 0x43D, 0x435, 0x43A, 0x43E, 0x440, 0x440, 0x435,
           0x43A, 0x442, 0x43D, 0x430, 0x44F, 0x20, 0x441, 0x442, 0x440, 0x43E, 0x43A,
           0x430, 0x20, 0x27]
          @ py_strip raw @
          [0x27, 0x2C, 0x20, 0x43F, 0x440, 0x43E, 0x43F, 0x443, 0x441, 0x43A, 0x430, 0x435,
           0x43C]
        else
          [0x41F, 0x440, 0x435, 0x434, 0x443, 0x43F, 0x440, 0x435, 0x436, 0x434, 0x435,
           0x43D, 0x438, 0x435, 0x3A, 0x20, 0x43D, 0x435, 0x43A, 0x43E, 0x440, 0x440, 0x435,
           0x43A, 0x442, 0x43D, 0x44B, 0x439, 0x20, 0x438, 0x43D, 0x434, 0x435, 0x43A,
           0x441, 0x20, 0x432, 0x20, 0x441, 0x442, 0x440, 0x43E, 0x43A, 0x435, 0x20, 0x27]
          @ py_strip raw @
          [0x27, 0x2C, 0x20, 0x43F, 0x440, 0x43E, 0x43F, 0x443, 0x441, 0x43A, 0x430, 0x435,
           0x43C]
       ] @ rest \<and>
     filtered_words s = filtered_words s' \<and>
     py_strip raw \<notin> set (filtered_words s) \<and>
     filter_words lower to_int input_file (Some (pre @ raw # post)) =
       \<lparr>written = Some (concat (map (\<lambda>line. line @ [0xA]) (filtered_words s'))),
        stdout = printed s @
          [
           [0x41E, 0x431, 0x440, 0x430, 0x431, 0x43E, 0x442, 0x43A, 0x430, 0x20, 0x437,
            0x430, 0x432, 0x435, 0x440, 0x448, 0x435, 0x43D, 0x430, 0x20, 0x443, 0x441,
            0x43F, 0x435, 0x448, 0x43D, 0x43E, 0x21],
           [0x412, 0x441, 0x435, 0x433, 0x43E, 0x20, 0x43E, 0x442, 0x444, 0x438, 0x43B,
            0x44C, 0x442, 0x440, 0x43E, 0x432, 0x430, 0x43D, 0x43E, 0x20, 0x441, 0x43B,
            0x43E, 0x432, 0x3A, 0x20]
             @ str_of_nat (length (filtered_words s'))],
        exit_status = 0\<rparr> \<and>
     filter_words lower to_int input_file (Some (pre @ post)) =
       \<lparr>written = Some (concat (map (\<lambda>line. line @ [0xA]) (filtered_words s'))),
        stdout = printed s' @
          [
           [0x41E, 0x431, 0x440, 0x430, 0x431, 0x43E, 0x442, 0x43A, 0x430, 0x20, 0x437,
            0x430, 0x432, 0x435, 0x440, 0x448, 0x435, 0x43D, 0x430, 0x20, 0x443, 0x441,
            0x43F, 0x435, 0x448, 0x43D, 0x43E, 0x21],
           [0x412, 0x441, 0x435, 0x433, 0x43E, 0x20, 0x43E, 0x442, 0x444, 0x438, 0x43B,
            0x44C, 0x442, 0x440, 0x43E, 0x432, 0x430, 0x43D, 0x43E, 0x20, 0x441, 0x43B,
            0x43E, 0x432, 0x3A, 0x20]
             @ str_of_nat (length (filtered_words s'))],
        exit_status = 0\<rparr>"
proof -
  from assms have nk: "\<not> kept lower to_int raw" by (rule malformed_not_kept)
  have nin: "py_strip raw \<notin> set (map py_strip (filter (kept lower to_int) (pre @ post)))"
  proof
    assume "py_strip raw \<in> set (map py_strip (filter (kept lower to_int) (pre @ post)))"
    then have "py_strip raw \<in> py_strip ` set (filter (kept lower to_int) (pre @ post))"
      by (simp only: set_map)
    then obtain x where x: "x \<in> set (filter (kept lower to_int) (pre @ post))"
      and e: "py_strip raw = py_strip x" by (rule imageE)
    from x have "x \<in> set (pre @ post) \<and> kept lower to_int x"
      by (simp only: set_filter mem_Collect_eq)
    with kept_cong[OF e, of lower to_int] nk show False by simp
  qed
  from assms have w: "warning to_int raw =
     [if length (py_split (py_strip raw)) \<noteq> 2 then warn_line (py_strip raw)
      else warn_index (py_strip raw)]"
    by (auto simp: malformed_def warning_def Let_def)
  have f: "filter (kept lower to_int) (pre @ raw # post) = filter (kept lower to_int) (pre @ post)"
    using nk by simp
  let ?sp = "\<lparr>filtered_words = map py_strip (filter (kept lower to_int) pre),
              printed = concat (map (warning to_int) pre)\<rparr>"
  let ?s = "\<lparr>filtered_words = map py_strip (filter (kept lower to_int) (pre @ post)),
             printed = concat (map (warning to_int) pre) @ warning to_int raw @
                       concat (map (warning to_int) post)\<rparr>"
  let ?s' = "\<lparr>filtered_words = map py_strip (filter (kept lower to_int) (pre @ post)),
              printed = concat (map (warning to_int) pre) @ concat (map (warning to_int) post)\<rparr>"
  have 1: "read_loop lower to_int pre \<lparr>filtered_words = [], printed = []\<rparr> = Inr ?sp"
    by (simp add: read_loop_eq)
  have 2: "read_loop lower to_int (pre @ raw # post) \<lparr>filtered_words = [], printed = []\<rparr> = Inr ?s"
    using nk by (simp add: read_loop_eq)
  have 3: "read_loop lower to_int (pre @ post) \<lparr>filtered_words = [], printed = []\<rparr> = Inr ?s'"
    by (simp add: read_loop_eq)
  have 4: "filter_words lower to_int input_file (Some (pre @ raw # post)) =
       \<lparr>written = Some (concat (map (\<lambda>line. line @ [0xA]) (filtered_words ?s'))),
        stdout = printed ?s @ [msg_done, msg_count (length (filtered_words ?s'))],
        exit_status = 0\<rparr>"
    using nk by (simp add: filter_words_eq)
  have 5: "filter_words lower to_int input_file (Some (pre @ post)) =
       \<lparr>written = Some (concat (map (\<lambda>line. line @ [0xA]) (filtered_words ?s'))),
        stdout = printed ?s' @ [msg_done, msg_count (length (filtered_words ?s'))],
        exit_status = 0\<rparr>"
    by (simp add: filter_words_eq)
  have 6: "printed ?s' = printed ?sp @ concat (map (warning to_int) post)" by simp
  have 7: "printed ?s = printed ?sp @ warning to_int raw @ concat (map (warning to_int) post)"
    by simp
  have 8: "filtered_words ?s = filtered_words ?s'" by simp
  have 9: "py_strip raw \<notin> set (filtered_words ?s)" using nin by simp
  show ?thesis
    apply (rule exI[of _ ?sp])
    apply (rule exI[of _ ?s])
    apply (rule exI[of _ ?s'])
    apply (rule exI[of _ "concat (map (warning to_int) post)"])
    unfolding 4 5
    using 1 2 3 6 7 8 9
    unfolding w warn_line_def warn_index_def msg_done_def msg_count_def
    by (intro conjI) simp_all
qed

theorem malformed_line_skipped_witness:
  "malformed ascii_int [0x442, 0x435, 0x43B, 0xA] \<and>
   filter_words bashkir_lower ascii_int [] (Some ([ [0x442, 0x435, 0x43B, 0xA], [0x4A1, 0x430, 0x43B, 0x430, 0x43C, 0x20, 0x31, 0xA] ] @ [0x442, 0x435, 0x43B, 0xA] # [ [0x442, 0x435, 0x43B, 0x20, 0x445, 0xA] ])) =
     \<lparr>written = Some [0x4A1, 0x430, 0x43B, 0x430, 0x43C, 0x20, 0x31, 0xA],
      stdout = [ [0x41F, 0x440, 0x435, 0x434, 0x443, 0x43F, 0x440, 0x435, 0x436, 0x434, 0x435, 0x43D,
       0x438, 0x435, 0x3A, 0x20, 0x43D, 0x435, 0x43A, 0x43E, 0x440, 0x440, 0x435, 0x43A,
       0x442, 0x43D, 0x430, 0x44F, 0x20, 0x441, 0x442, 0x440, 0x43E, 0x43A, 0x430, 0x20,
       0x27, 0x442, 0x435, 0x43B, 0x27, 0x2C, 0x20, 0x43F, 0x440, 0x43E, 0x43F, 0x443,
       0x441, 0x43A, 0x430, 0x435, 0x43C],
      [0x41F, 0x440, 0x435, 0x434, 0x443, 0x43F, 0x440, 0x435, 0x436, 0x434, 0x435, 0x43D,
       0x438, 0x435, 0x3A, 0x20, 0x43D, 0x435, 0x43A, 0x43E, 0x440, 0x440, 0x435, 0x43A,
       0x442, 0x43D, 0x430, 0x44F, 0x20, 0x441, 0x442, 0x440, 0x43E, 0x43A, 0x430, 0x20,
       0x27, 0x442, 0x435, 0x43B, 0x27, 0x2C, 0x20, 0x43F, 0x440, 0x43E, 0x43F, 0x443,
       0x441, 0x43A, 0x430, 0x435, 0x43C],
      [0x41F, 0x440, 0x435, 0x434, 0x443, 0x43F, 0x440, 0x435, 0x436, 0x434, 0x435, 0x43D,
       0x438, 0x435, 0x3A, 0x20, 0x43D, 0x435, 0x43A, 0x43E, 0x440, 0x440, 0x435, 0x43A,
       0x442, 0x43D, 0x44B, 0x439, 0x20, 0x438, 0x43D, 0x434, 0x435, 0x43A, 0x441, 0x20,
       0x432, 0x20, 0x441, 0x442, 0x440, 0x43E, 0x43A, 0x435, 0x20, 0x27, 0x442, 0x435,
       0x43B, 0x20, 0x445, 0x27, 0x2C, 0x20, 0x43F, 0x440, 0x43E, 0x43F, 0x443, 0x441,
       0x43A, 0x430, 0x435, 0x43C],
      [0x41E, 0x431, 0x440, 0x430, 0x431, 0x43E, 0x442, 0x43A, 0x430, 0x20, 0x437, 0x430,
       0x432, 0x435, 0x440, 0x448, 0x435, 0x43D, 0x430, 0x20, 0x443, 0x441, 0x43F, 0x435,
       0x448, 0x43D, 0x43E, 0x21],
      [0x412, 0x441, 0x435, 0x433, 0x43E, 0x20, 0x43E, 0x442, 0x444, 0x438, 0x43B, 0x44C,
       0x442, 0x440, 0x43E, 0x432, 0x430, 0x43D, 0x43E, 0x20, 0x441, 0x43B, 0x43E, 0x432,
       0x3A, 0x20, 0x31] ],
      exit_status = 0\<rparr> \<and>
   filter_words bashkir_lower ascii_int [] (Some ([ [0x442, 0x435, 0x43B, 0xA], [0x4A1, 0x430, 0x43B, 0x430, 0x43C, 0x20, 0x31, 0xA] ] @ [ [0x442, 0x435, 0x43B, 0x20, 0x445, 0xA] ])) =
     \<lparr>written = Some [0x4A1, 0x430, 0x43B, 0x430, 0x43C, 0x20, 0x31, 0xA],
      stdout = [ [0x41F, 0x440, 0x435, 0x434, 0x443, 0x43F, 0x440, 0x435, 0x436, 0x434, 0x435, 0x43D,
       0x438, 0x435, 0x3A, 0x20, 0x43D, 0x435, 0x43A, 0x43E, 0x440, 0x440, 0x435, 0x43A,
       0x442, 0x43D, 0x430, 0x44F, 0x20, 0x441, 0x442, 0x440, 0x43E, 0x43A, 0x430, 0x20,
       0x27, 0x442, 0x435, 0x43B, 0x27, 0x2C, 0x20, 0x43F, 0x440, 0x43E, 0x43F, 0x443,
       0x441, 0x43A, 0x430, 0x435, 0x43C],
      [0x41F, 0x440, 0x435, 0x434, 0x443, 0x43F, 0x440, 0x435, 0x436, 0x434, 0x435, 0x43D,
       0x438, 0x435, 0x3A, 0x20, 0x43D, 0x435, 0x43A, 0x43E, 0x440, 0x440, 0x435, 0x43A,
       0x442, 0x43D, 0x44B, 0x439, 0x20, 0x438, 0x43D, 0x434, 0x435, 0x43A, 0x441, 0x20,
       0x432, 0x20, 0x441, 0x442, 0x440, 0x43E, 0x43A, 0x435, 0x20, 0x27, 0x442, 0x435,
       0x43B, 0x20, 0x445, 0x27, 0x2C, 0x20, 0x43F, 0x440, 0x43E, 0x43F, 0x443, 0x441,
       0x43A, 0x430, 0x435, 0x43C],
      [0x41E, 0x431, 0x440, 0x430, 0x431, 0x43E, 0x442, 0x43A, 0x430, 0x20, 0x437, 0x430,
       0x432, 0x435, 0x440, 0x448, 0x435, 0x43D, 0x430, 0x20, 0x443, 0x441, 0x43F, 0x435,
       0x448, 0x43D, 0x43E, 0x21],
      [0x412, 0x441, 0x435, 0x433, 0x43E, 0x20, 0x43E, 0x442, 0x444, 0x438, 0x43B, 0x44C,
       0x442, 0x440, 0x43E, 0x432, 0x430, 0x43D, 0x43E, 0x20, 0x441, 0x43B, 0x43E, 0x432,
       0x3A, 0x20, 0x31] ],
      exit_status = 0\<rparr>"
proof -
  have a: "malformed ascii_int [0x442, 0x435, 0x43B, 0xA]"
    by (simp add: malformed_def line_eval)
  have r: "read_loop bashkir_lower ascii_int ([ [0x442, 0x435, 0x43B, 0xA], [0x4A1, 0x430, 0x43B, 0x430, 0x43C, 0x20, 0x31, 0xA] ] @ [0x442, 0x435, 0x43B, 0xA] # [ [0x442, 0x435, 0x43B, 0x20, 0x445, 0xA] ]) \<lparr>filtered_words = [], printed = []\<rparr> =
     Inr \<lparr>filtered_words = [ [0x4A1, 0x430, 0x43B, 0x430, 0x43C, 0x20, 0x31] ],
          printed = [ [0x41F, 0x440, 0x435, 0x434, 0x443, 0x43F, 0x440, 0x435, 0x436, 0x434, 0x435, 0x43D,
       0x438, 0x435, 0x3A, 0x20, 0x43D, 0x435, 0x43A, 0x43E, 0x440, 0x440, 0x435, 0x43A,
       0x442, 0x43D, 0x430, 0x44F, 0x20, 0x441, 0x442, 0x440, 0x43E, 0x43A, 0x430, 0x20,
       0x27, 0x442, 0x435, 0x43B, 0x27, 0x2C, 0x20, 0x43F, 0x440, 0x43E, 0x43F, 0x443,
       0x441, 0x43A, 0x430, 0x435, 0x43C],
      [0x41F, 0x440, 0x435, 0x434, 0x443, 0x43F, 0x440, 0x435, 0x436, 0x434, 0x435, 0x43D,
       0x438, 0x435, 0x3A, 0x20, 0x43D, 0x435, 0x43A, 0x43E, 0x440, 0x440, 0x435, 0x43A,
       0x442, 0x43D, 0x430, 0x44F, 0x20, 0x441, 0x442, 0x440, 0x43E, 0x43A, 0x430, 0x20,
       0x27, 0x442, 0x435, 0x43B, 0x27, 0x2C, 0x20, 0x43F, 0x440, 0x43E, 0x43F, 0x443,
       0x441, 0x43A, 0x430, 0x435, 0x43C],
      [0x41F, 0x440, 0x435, 0x434, 0x443, 0x43F, 0x440, 0x435, 0x436, 0x434, 0x435, 0x43D,
       0x438, 0x435, 0x3A, 0x20, 0x43D, 0x435, 0x43A, 0x43E, 0x440, 0x440, 0x435, 0x43A,
       0x442, 0x43D, 0x44B, 0x439, 0x20, 0x438, 0x43D, 0x434, 0x435, 0x43A, 0x441, 0x20,
       0x432, 0x20, 0x441, 0x442, 0x440, 0x43E, 0x43A, 0x435, 0x20, 0x27, 0x442, 0x435,
       0x43B, 0x20, 0x445, 0x27, 0x2C, 0x20, 0x43F, 0x440, 0x43E, 0x43F, 0x443, 0x441,
       0x43A, 0x430, 0x435, 0x43C] ]\<rparr>"
    by (simp add: line_eval rule_eval vowel_eval vowel_sets lower_eval warn_line_def
        warn_index_def)
  have r': "read_loop bashkir_lower ascii_int ([ [0x442, 0x435, 0x43B, 0xA], [0x4A1, 0x430, 0x43B, 0x430, 0x43C, 0x20, 0x31, 0xA] ] @ [ [0x442, 0x435, 0x43B, 0x20, 0x445, 0xA] ]) \<lparr>filtered_words = [], printed = []\<rparr> =
     Inr \<lparr>filtered_words = [ [0x4A1, 0x430, 0x43B, 0x430, 0x43C, 0x20, 0x31] ],
          printed = [ [0x41F, 0x440, 0x435, 0x434, 0x443, 0x43F, 0x440, 0x435, 0x436, 0x434, 0x435, 0x43D,
       0x438, 0x435, 0x3A, 0x20, 0x43D, 0x435, 0x43A, 0x43E, 0x440, 0x440, 0x435, 0x43A,
       0x442, 0x43D, 0x430, 0x44F, 0x20, 0x441, 0x442, 0x440, 0x43E, 0x43A, 0x430, 0x20,
       0x27, 0x442, 0x435, 0x43B, 0x27, 0x2C, 0x20, 0x43F, 0x440, 0x43E, 0x43F, 0x443,
       0x441, 0x43A, 0x430, 0x435, 0x43C],
      [0x41F, 0x440, 0x435, 0x434, 0x443, 0x43F, 0x440, 0x435, 0x436, 0x434, 0x435, 0x43D,
       0x438, 0x435, 0x3A, 0x20, 0x43D, 0x435, 0x43A, 0x43E, 0x440, 0x440, 0x435, 0x43A,
       0x442, 0x43D, 0x44B, 0x439, 0x20, 0x438, 0x43D, 0x434, 0x435, 0x43A, 0x441, 0x20,
       0x432, 0x20, 0x441, 0x442, 0x440, 0x43E, 0x43A, 0x435, 0x20, 0x27, 0x442, 0x435,
       0x43B, 0x20, 0x445, 0x27, 0x2C, 0x20, 0x43F, 0x440, 0x43E, 0x43F, 0x443, 0x441,
       0x43A, 0x430, 0x435, 0x43C] ]\<rparr>"
    by (simp add: line_eval rule_eval vowel_eval vowel_sets lower_eval warn_line_def
        warn_index_def)
  from malformed_line_skipped [OF a, of bashkir_lower "[ [0x442, 0x435, 0x43B, 0xA], [0x4A1, 0x430, 0x43B, 0x430, 0x43C, 0x20, 0x31, 0xA] ]" "[ [0x442, 0x435, 0x43B, 0x20, 0x445, 0xA] ]" "[]"]
  obtain s s' where
    1: "read_loop bashkir_lower ascii_int ([ [0x442, 0x435, 0x43B, 0xA], [0x4A1, 0x430, 0x43B, 0x430, 0x43C, 0x20, 0x31, 0xA] ] @ [0x442, 0x435, 0x43B, 0xA] # [ [0x442, 0x435, 0x43B, 0x20, 0x445, 0xA] ]) \<lparr>filtered_words = [], printed = []\<rparr> = Inr s"
    and 2: "read_loop bashkir_lower ascii_int ([ [0x442, 0x435, 0x43B, 0xA], [0x4A1, 0x430, 0x43B, 0x430, 0x43C, 0x20, 0x31, 0xA] ] @ [ [0x442, 0x435, 0x43B, 0x20, 0x445, 0xA] ]) \<lparr>filtered_words = [], printed = []\<rparr> = Inr s'"
    and 3: "filter_words bashkir_lower ascii_int [] (Some ([ [0x442, 0x435, 0x43B, 0xA], [0x4A1, 0x430, 0x43B, 0x430, 0x43C, 0x20, 0x31, 0xA] ] @ [0x442, 0x435, 0x43B, 0xA] # [ [0x442, 0x435, 0x43B, 0x20, 0x445, 0xA] ])) =
       \<lparr>written = Some (concat (map (\<lambda>line. line @ [0xA]) (filtered_words s'))),
        stdout = printed s @
          [ [0x41E, 0x431, 0x440, 0x430, 0x431, 0x43E, 0x442, 0x43A, 0x430, 0x20, 0x437, 0x430,
       0x432, 0x435, 0x440, 0x448, 0x435, 0x43D, 0x430, 0x20, 0x443, 0x441, 0x43F, 0x435,
       0x448, 0x43D, 0x43E, 0x21],
           [0x412, 0x441, 0x435, 0x433, 0x43E, 0x20, 0x43E, 0x442, 0x444, 0x438, 0x43B, 0x44C,
       0x442, 0x440, 0x43E, 0x432, 0x430, 0x43D, 0x43E, 0x20, 0x441, 0x43B, 0x43E, 0x432,
       0x3A, 0x20] @ str_of_nat (length (filtered_words s'))],
        exit_status = 0\<rparr>"
    and 4: "filter_words bashkir_lower ascii_int [] (Some ([ [0x442, 0x435, 0x43B, 0xA], [0x4A1, 0x430, 0x43B, 0x430, 0x43C, 0x20, 0x31, 0xA] ] @ [ [0x442, 0x435, 0x43B, 0x20, 0x445, 0xA] ])) =
       \<lparr>written = Some (concat (map (\<lambda>line. line @ [0xA]) (filtered_words s'))),
        stdout = printed s' @
          [ [0x41E, 0x431, 0x440, 0x430, 0x431, 0x43E, 0x442, 0x43A, 0x430, 0x20, 0x437, 0x430,
       0x432, 0x435, 0x440, 0x448, 0x435, 0x43D, 0x430, 0x20, 0x443, 0x441, 0x43F, 0x435,
       0x448, 0x43D, 0x43E, 0x21],
           [0x412, 0x441, 0x435, 0x433, 0x43E, 0x20, 0x43E, 0x442, 0x444, 0x438, 0x43B, 0x44C,
       0x442, 0x440, 0x43E, 0x432, 0x430, 0x43D, 0x43E, 0x20, 0x441, 0x43B, 0x43E, 0x432,
       0x3A, 0x20] @ str_of_nat (length (filtered_words s'))],
        exit_status = 0\<rparr>"
    by blast
  from 1 r have s: "s = \<lparr>filtered_words = [ [0x4A1, 0x430, 0x43B, 0x430, 0x43C, 0x20, 0x31] ],
          printed = [ [0x41F, 0x440, 0x435, 0x434, 0x443, 0x43F, 0x440, 0x435, 0x436, 0x434, 0x435, 0x43D,
       0x438, 0x435, 0x3A, 0x20, 0x43D, 0x435, 0x43A, 0x43E, 0x440, 0x440, 0x435, 0x43A,
       0x442, 0x43D, 0x430, 0x44F, 0x20, 0x441, 0x442, 0x440, 0x43E, 0x43A, 0x430, 0x20,
       0x27, 0x442, 0x435, 0x43B, 0x27, 0x2C, 0x20, 0x43F, 0x440, 0x43E, 0x43F, 0x443,
       0x441, 0x43A, 0x430, 0x435, 0x43C],
      [0x41F, 0x440, 0x435, 0x434, 0x443, 0x43F, 0x440, 0x435, 0x436, 0x434, 0x435, 0x43D,
       0x438, 0x435, 0x3A, 0x20, 0x43D, 0x435, 0x43A, 0x43E, 0x440, 0x440, 0x435, 0x43A,
       0x442, 0x43D, 0x430, 0x44F, 0x20, 0x441, 0x442, 0x440, 0x43E, 0x43A, 0x430, 0x20,
       0x27, 0x442, 0x435, 0x43B, 0x27, 0x2C, 0x20, 0x43F, 0x440, 0x43E, 0x43F, 0x443,
       0x441, 0x43A, 0x430, 0x435, 0x43C],
      [0x41F, 0x440, 0x435, 0x434, 0x443, 0x43F, 0x440, 0x435, 0x436, 0x434, 0x435, 0x43D,
       0x438, 0x435, 0x3A, 0x20, 0x43D, 0x435, 0x43A, 0x43E, 0x440, 0x440, 0x435, 0x43A,
       0x442, 0x43D, 0x44B, 0x439, 0x20, 0x438, 0x43D, 0x434, 0x435, 0x43A, 0x441, 0x20,
       0x432, 0x20, 0x441, 0x442, 0x440, 0x43E, 0x43A, 0x435, 0x20, 0x27, 0x442, 0x435,
       0x43B, 0x20, 0x445, 0x27, 0x2C, 0x20, 0x43F, 0x440, 0x43E, 0x43F, 0x443, 0x441,
       0x43A, 0x430, 0x435, 0x43C] ]\<rparr>"
    by (simp only: sum.inject)
  from 2 r' have s': "s' = \<lparr>filtered_words = [ [0x4A1, 0x430, 0x43B, 0x430, 0x43C, 0x20, 0x31] ],
          printed = [ [0x41F, 0x440, 0x435, 0x434, 0x443, 0x43F, 0x440, 0x435, 0x436, 0x434, 0x435, 0x43D,
       0x438, 0x435, 0x3A, 0x20, 0x43D, 0x435, 0x43A, 0x43E, 0x440, 0x440, 0x435, 0x43A,
       0x442, 0x43D, 0x430, 0x44F, 0x20, 0x441, 0x442, 0x440, 0x43E, 0x43A, 0x430, 0x20,
       0x27, 0x442, 0x435, 0x43B, 0x27, 0x2C, 0x20, 0x43F, 0x440, 0x43E, 0x43F, 0x443,
       0x441, 0x43A, 0x430, 0x435, 0x43C],
      [0x41F, 0x440, 0x435, 0x434, 0x443, 0x43F, 0x440, 0x435, 0x436, 0x434, 0x435, 0x43D,
       0x438, 0x435, 0x3A, 0x20, 0x43D, 0x435, 0x43A, 0x43E, 0x440, 0x440, 0x435, 0x43A,
       0x442, 0x43D, 0x44B, 0x439, 0x20, 0x438, 0x43D, 0x434, 0x435, 0x43A, 0x441, 0x20,
       0x432, 0x20, 0x441, 0x442, 0x440, 0x43E, 0x43A, 0x435, 0x20, 0x27, 0x442, 0x435,
       0x43B, 0x20, 0x445, 0x27, 0x2C, 0x20, 0x43F, 0x440, 0x43E, 0x43F, 0x443, 0x441,
       0x43A, 0x430, 0x435, 0x43C] ]\<rparr>"
    by (simp only: sum.inject)
  have n: "str_of_nat (Suc 0) = [0x31]" by (simp add: str_of_nat.simps)
  show ?thesis
    using a 3 4 unfolding s s' by (simp add: n)
qed

text \<open>
  C10. The neighbour tests look for regular vowels only. In a word whose characters all
  lowercase to a special vowel, every position is a vowel for \<open>is_vowel_in_context\<close>, and
  \<open>find_last_vowel_index\<close> is the last position.
\<close>

theorem special_vowels_only_word:
  assumes "\<forall>c\<in>set word. lower [c] \<in> special_vowels"
  shows "(\<forall>p. 0 \<le> p \<and> p < int (length word) \<longrightarrow>
            is_vowel_in_context lower word p = Some True) \<and>
         find_last_vowel_index lower word = Some (int (length word) - 1)"
proof -
  have sp: "lower [word ! k] \<in> special_vowels" if "k < length word" for k
    using assms that by simp
  have nr: "lower [word ! k] \<notin> regular_vowels" if "k < length word" for k
    using sp[OF that] by (rule special_not_regular)
  have v: "vowel_at lower word p" if "0 \<le> p" "p < int (length word)" for p
  proof -
    from that have a: "nat p < length word" by simp
    have b: "0 < p \<Longrightarrow> lower [word ! nat (p - 1)] \<notin> regular_vowels"
      using that by (intro nr) simp
    have c: "p < int (length word) - 1 \<Longrightarrow> lower [word ! nat (p + 1)] \<notin> regular_vowels"
      using that by (intro nr) simp
    from that sp[OF a] b c show ?thesis by (auto simp: vowel_at_def)
  qed
  obtain r where r: "find_last_vowel_index lower word = Some r"
    and c: "(r = - 1 \<and> (\<forall>p. \<not> vowel_at lower word p)) \<or>
        (vowel_at lower word r \<and> (\<forall>p. vowel_at lower word p \<longrightarrow> p \<le> r))"
    using find_last_vowel_index_spec[of lower word] by blast
  have "r = int (length word) - 1"
  proof (cases "word = []")
    case True
    then have "\<not> vowel_at lower word r" by (simp add: vowel_at_def)
    with c True show ?thesis by simp
  next
    case False
    then have l: "vowel_at lower word (int (length word) - 1)" by (intro v) simp_all
    with c have "vowel_at lower word r" "int (length word) - 1 \<le> r" by blast+
    moreover from this have "r < int (length word)" by (simp add: vowel_at_def)
    ultimately show ?thesis by simp
  qed
  with r v show ?thesis by (simp add: vowel_iff)
qed

theorem special_vowels_only_word_witness:
  "bashkir_lower [0x443] \<in> special_vowels \<and>
   bashkir_lower [0x4AE] \<in> special_vowels \<and>
   bashkir_lower [0x4AF] \<in> special_vowels \<and>
   is_vowel_in_context bashkir_lower [0x443, 0x4AE, 0x4AF] 0 = Some True \<and>
   is_vowel_in_context bashkir_lower [0x443, 0x4AE, 0x4AF] 1 = Some True \<and>
   is_vowel_in_context bashkir_lower [0x443, 0x4AE, 0x4AF] 2 = Some True \<and>
   find_last_vowel_index bashkir_lower [0x443, 0x4AE, 0x4AF] = Some 2"
proof -
  have m: "bashkir_lower [0x443] \<in> special_vowels \<and>
      bashkir_lower [0x4AE] \<in> special_vowels \<and>
      bashkir_lower [0x4AF] \<in> special_vowels"
    by (simp add: lower_eval special_vowels_def set_of_str_def)
  then have h: "\<forall>c\<in>set [0x443, 0x4AE, 0x4AF]. bashkir_lower [c] \<in> special_vowels"
    by simp
  show ?thesis
    using m special_vowels_only_word [OF h] by simp
qed

end
